theory Spec2Isabelle
  imports Main "HOL-Library.AList" "HOL-Library.Char_ord" "HOL-Library.List_Lexorder"
begin

section \<open>The sing-box configuration receiver\<close>

text \<open>
  A shallow embedding of the receiver service (the Express application with the
  \<^verbatim>\<open>/deploy\<close> handler): the configuration sanitizer, the atomic file
  writer, the rolling backups, the health monitor and the deployment handler with its
  rollback.

  Everything the service does beyond computing values is explicit. The file system, the
  deployment lock and the sequence of effects are fields of a \<open>world\<close> record that
  every operation takes and returns. What the environment decides (whether a file
  operation fails, how an external command ends, what the clock shows) is read from
  oracles in the world, one entry per operation, so that a theorem quantified over the
  world covers every behaviour of the environment. Exceptions are values of the type
  \<open>error\<close>, returned as \<open>Inl\<close>.
\<close>

subsection \<open>JSON values\<close>

text \<open>
  The values \<^verbatim>\<open>JSON.parse\<close> returns. An object is an association list in
  which the first binding of a key is the property's value. Numbers are integers here:
  the handler only ever tests a number for being zero (in \<^verbatim>\<open>||\<close>).
\<close>

datatype json =
    JNull
  | JBool bool
  | JNum int
  | JStr string
  | JArr "json list"
  | JObj "(string \<times> json) list"

text \<open>JavaScript's truthiness, for the operand of \<^verbatim>\<open>||\<close> and \<^verbatim>\<open>!\<close>.\<close>

fun truthy :: "json \<Rightarrow> bool" where
  "truthy JNull = False"
| "truthy (JBool b) = b"
| "truthy (JNum n) = (n \<noteq> 0)"
| "truthy (JStr s) = (s \<noteq> [])"
| "truthy (JArr xs) = True"
| "truthy (JObj kvs) = True"

subsection \<open>Errors\<close>

text \<open>
  Every exception the service can raise. The texts of the messages are not modelled (they
  are not ASCII); a constructor stands for the message the source builds, and carries the
  parts of it that vary.
  \<^item> \<open>PayloadEmpty\<close>: \<^verbatim>\<open>new Error("Payload empty")\<close>;
  \<^item> \<open>ParseFailed m\<close>: the error of the decrypt-and-parse block, wrapping the inner
    message \<open>m\<close>;
  \<^item> \<open>TypeError\<close>: reading a property of \<^verbatim>\<open>null\<close>;
  \<^item> \<open>IoError m\<close>: an exception of a \<^verbatim>\<open>fs\<close> function, with its message;
  \<^item> \<open>SysConfigFailed e\<close>: the error of \<^verbatim>\<open>ensureSystemConfig\<close>, wrapping
    the message of the exception \<open>e\<close>;
  \<^item> \<open>CmdTimeout c\<close>, \<open>CmdFailed m\<close>: the two errors of \<^verbatim>\<open>runCmd\<close>;
  \<^item> \<open>CrashLoop i\<close>: the daemon was found stopped at the \<open>i\<close>-th poll.
\<close>

datatype error =
    PayloadEmpty
  | ParseFailed string
  | TypeError
  | IoError string
  | SysConfigFailed error
  | CmdTimeout string
  | CmdFailed string
  | CrashLoop nat

subsection \<open>The sanitizer (STEP 2 of the handler)\<close>

text \<open>
  \<^verbatim>\<open>rawConfig.k\<close>: \<open>None\<close> is \<^verbatim>\<open>undefined\<close>. Reading a property of
  \<^verbatim>\<open>null\<close> throws; a boolean, a number, a string or an array has none of the
  four properties the handler reads (none of them is inherited from a prototype).
\<close>

fun get_prop :: "json \<Rightarrow> string \<Rightarrow> error + json option" where
  "get_prop JNull k = Inl TypeError"
| "get_prop (JObj kvs) k = Inr (map_of kvs k)"
| "get_prop (JBool b) k = Inr None"
| "get_prop (JNum n) k = Inr None"
| "get_prop (JStr s) k = Inr None"
| "get_prop (JArr xs) k = Inr None"

text \<open>\<^verbatim>\<open>v || d\<close> for a property value \<open>v\<close>.\<close>

fun js_or :: "json option \<Rightarrow> json \<Rightarrow> json" where
  "js_or None d = d"
| "js_or (Some v) d = (if truthy v then v else d)"

text \<open>
  The object literal \<^verbatim>\<open>cleanConfig\<close>, before the empty fields are removed: its
  four properties in order, \<open>None\<close> for a property whose value is \<^verbatim>\<open>undefined\<close>.
\<close>

definition cleanConfig :: "json \<Rightarrow> error + (string \<times> json option) list" where
  "cleanConfig rawConfig =
     (case get_prop rawConfig ''dns'' of Inl e \<Rightarrow> Inl e | Inr dns \<Rightarrow>
      case get_prop rawConfig ''outbounds'' of Inl e \<Rightarrow> Inl e | Inr outbounds \<Rightarrow>
      case get_prop rawConfig ''route'' of Inl e \<Rightarrow> Inl e | Inr route \<Rightarrow>
      case get_prop rawConfig ''ntp'' of Inl e \<Rightarrow> Inl e | Inr ntp \<Rightarrow>
        Inr [(''dns'', Some (js_or dns (JObj []))),
             (''outbounds'', Some (js_or outbounds (JArr []))),
             (''route'', Some (js_or route (JObj []))),
             (''ntp'', ntp)])"

text \<open>
  The loop over \<^verbatim>\<open>Object.keys(cleanConfig)\<close> that deletes every property whose
  value is \<^verbatim>\<open>undefined\<close> or \<^verbatim>\<open>null\<close>.
\<close>

fun removeEmpty :: "(string \<times> json option) list \<Rightarrow> (string \<times> json) list" where
  "removeEmpty [] = []"
| "removeEmpty ((k, None) # kvs) = removeEmpty kvs"
| "removeEmpty ((k, Some v) # kvs) =
     (if v = JNull then removeEmpty kvs else (k, v) # removeEmpty kvs)"

text \<open>STEP 2 as a whole: the document that STEP 4 serializes into the business file.\<close>

definition sanitize :: "json \<Rightarrow> error + json" where
  "sanitize rawConfig =
     (case cleanConfig rawConfig of
        Inl e \<Rightarrow> Inl e
      | Inr kvs \<Rightarrow> Inr (JObj (removeEmpty kvs)))"

text \<open>The property names of a document (of its top level).\<close>

fun keys_of :: "json \<Rightarrow> string list" where
  "keys_of (JObj kvs) = map fst kvs"
| "keys_of JNull = []"
| "keys_of (JBool b) = []"
| "keys_of (JNum n) = []"
| "keys_of (JStr s) = []"
| "keys_of (JArr xs) = []"

text \<open>Whether a document is an object.\<close>

fun is_object :: "json \<Rightarrow> bool" where
  "is_object (JObj kvs) = True"
| "is_object JNull = False"
| "is_object (JBool b) = False"
| "is_object (JNum n) = False"
| "is_object (JStr s) = False"
| "is_object (JArr xs) = False"

text \<open>The value of a property of an object, \<open>None\<close> when the object has no such key.\<close>

fun field :: "json \<Rightarrow> string \<Rightarrow> json option" where
  "field (JObj kvs) k = map_of kvs k"
| "field JNull k = None"
| "field (JBool b) k = None"
| "field (JNum n) k = None"
| "field (JStr s) k = None"
| "field (JArr xs) k = None"

subsection \<open>Configuration\<close>

text \<open>
  The object \<^verbatim>\<open>CONFIG\<close>. The operations take it as a parameter, so that the
  theorems hold for every retention count, probe count and set of paths; \<open>CONFIG\<close>
  below is the one the source is shipped with.
\<close>

record config =
  PORT :: nat
  TOKEN :: string
  SECRET :: string
  BASE_DIR :: string
  BACKUP_DIR :: string
  PROXY_FILE :: string
  SYSTEM_FILE :: string
  MAX_BACKUPS :: nat
  CMD_RESTART :: string
  CMD_STATUS :: string
  CMD_CHECK :: string
  EXEC_TIMEOUT :: nat
  HEALTH_INITIAL_DELAY :: nat
  HEALTH_CHECK_COUNT :: nat
  HEALTH_INTERVAL :: nat

definition CONFIG :: config where
  "CONFIG = \<lparr>
     PORT = 8080,
     TOKEN = ''my_token_123'',
     SECRET = ''my_key_456'',
     BASE_DIR = ''/etc/sing-box/conf.d'',
     BACKUP_DIR = ''/etc/sing-box/backups'',
     PROXY_FILE = ''10-proxy.json'',
     SYSTEM_FILE = ''00-system.json'',
     MAX_BACKUPS = 3,
     CMD_RESTART = ''rc-service sing-box restart'',
     CMD_STATUS = ''rc-service sing-box status'',
     CMD_CHECK = ''/usr/bin/sing-box check -C /etc/sing-box/conf.d'',
     EXEC_TIMEOUT = 10000,
     HEALTH_INITIAL_DELAY = 1500,
     HEALTH_CHECK_COUNT = 5,
     HEALTH_INTERVAL = 1000 \<rparr>"

text \<open>The template \<^verbatim>\<open>DEFAULT_SYSTEM_CONFIG\<close>.\<close>

definition DEFAULT_SYSTEM_CONFIG :: json where
  "DEFAULT_SYSTEM_CONFIG = JObj [
     (''log'', JObj [
        (''level'', JStr ''info''),
        (''output'', JStr ''/var/log/sing-box.log''),
        (''timestamp'', JBool True)]),
     (''inbounds'', JArr [JObj [
        (''type'', JStr ''tun''),
        (''tag'', JStr ''tun-in''),
        (''interface_name'', JStr ''tun0''),
        (''inet4_address'', JStr ''172.19.0.1/30''),
        (''mtu'', JNum 9000),
        (''auto_route'', JBool True),
        (''strict_route'', JBool True),
        (''stack'', JStr ''system''),
        (''sniff'', JBool True),
        (''sniff_override_destination'', JBool False)]]),
     (''experimental'', JObj [
        (''cache_file'', JObj [
           (''enabled'', JBool True),
           (''path'', JStr ''/var/lib/sing-box/cache.db''),
           (''store_fakeip'', JBool True)]),
        (''clash_api'', JObj [
           (''external_controller'', JStr ''0.0.0.0:9090''),
           (''external_ui'', JStr ''/usr/share/sing-box/ui'')])])]"

text \<open>\<^verbatim>\<open>DEFAULT_SYSTEM_CONFIG.experimental.cache_file.path\<close>.\<close>

definition cache_file_path :: string where
  "cache_file_path = ''/var/lib/sing-box/cache.db''"

subsection \<open>Library functions\<close>

text \<open>
  The functions of CryptoJS and of \<^verbatim>\<open>JSON\<close> are not code of the service; the
  handler takes them as a parameter, and the theorems hold for every such functions.
  \<^item> \<open>aes_decrypt content secret\<close> is
    \<^verbatim>\<open>CryptoJS.AES.decrypt(content, secret).toString(CryptoJS.enc.Utf8)\<close>:
    \<open>Inr\<close> the text, \<open>Inl\<close> the message of the exception when one is thrown;
  \<^item> \<open>json_parse\<close> is \<^verbatim>\<open>JSON.parse\<close>, \<open>Inl\<close> the message of its
    \<^verbatim>\<open>SyntaxError\<close>;
  \<^item> \<open>json_stringify v\<close> is \<^verbatim>\<open>JSON.stringify(v, null, 2)\<close>;
  \<^item> \<open>utf8_decode bytes\<close> is \<^verbatim>\<open>buffer.toString('utf8')\<close>, what
    \<^verbatim>\<open>fs.readFileSync(path, 'utf8')\<close> makes of the bytes of a file.

  A JavaScript string is represented by its UTF-8 encoding, a file by its bytes. The
  strings the service writes are well formed, so writing one stores its representation.
  Reading decodes: the decoder leaves valid UTF-8 as it is and replaces every invalid
  sequence by the replacement character, so what is read from a file that is not valid
  UTF-8 differs from the bytes of the file.
\<close>

record libs =
  aes_decrypt :: "json \<Rightarrow> string \<Rightarrow> string + string"
  json_parse :: "string \<Rightarrow> string + json"
  json_stringify :: "json \<Rightarrow> string"
  utf8_decode :: "string \<Rightarrow> string"

subsection \<open>Dates\<close>

text \<open>
  A \<^verbatim>\<open>Date\<close>: its \<^verbatim>\<open>getTime()\<close> in milliseconds and its UTC calendar
  fields. \<^verbatim>\<open>Date\<close> keeps the fields in their ranges (\<open>valid_date\<close>).
\<close>

record date =
  epoch_ms :: nat
  year :: nat
  month :: nat
  day :: nat
  hour :: nat
  minute :: nat
  second :: nat

definition valid_date :: "date \<Rightarrow> bool" where
  "valid_date d =
     (year d \<le> 9999 \<and> month d < 100 \<and> day d < 100 \<and> hour d < 100
      \<and> minute d < 100 \<and> second d < 100)"

definition digit :: "nat \<Rightarrow> char" where
  "digit n = ''0123456789'' ! (n mod 10)"

text \<open>The last \<open>k\<close> decimal digits of \<open>n\<close>: \<open>n\<close> padded with zeros to the width \<open>k\<close>
  when \<open>n < 10 ^ k\<close>.\<close>

fun pad :: "nat \<Rightarrow> nat \<Rightarrow> string" where
  "pad 0 n = []"
| "pad (Suc k) n = pad k (n div 10) @ [digit n]"

text \<open>The decimal numeral of \<open>n\<close>, as \<^verbatim>\<open>String(n)\<close> writes it.\<close>

fun dec :: "nat \<Rightarrow> string" where
  "dec n = (if n < 10 then [digit n] else dec (n div 10) @ [digit n])"

declare dec.simps [simp del]

text \<open>
  \<^verbatim>\<open>toISOString()\<close>: \<^verbatim>\<open>YYYY-MM-DDTHH:mm:ss.sssZ\<close>, and the year with a
  sign and six digits past the year 9999.
\<close>

definition toISOString :: "date \<Rightarrow> string" where
  "toISOString d =
     (if year d \<le> 9999 then pad 4 (year d) else CHR ''+'' # pad 6 (year d))
     @ ''-'' @ pad 2 (month d) @ ''-'' @ pad 2 (day d)
     @ ''T'' @ pad 2 (hour d) @ '':'' @ pad 2 (minute d) @ '':'' @ pad 2 (second d)
     @ ''.'' @ pad 3 (epoch_ms d) @ ''Z''"

subsection \<open>The world\<close>

record fnode =
  fdata :: string
  mtime :: nat

text \<open>
  What the environment decides for one file operation: it succeeds, or it throws with a
  message. A write that throws may leave data behind in the file it was writing
  (\<open>Some\<close> of what it leaves, an empty or truncated file), or leave the path as it was
  (\<open>None\<close>); the other operations change nothing when they throw.
\<close>

datatype io_outcome = IoOk | IoFail string "string option"

text \<open>How \<^verbatim>\<open>execSync\<close> ends: exit code 0, killed at the timeout, or any other
  failure with what it wrote to stderr.\<close>

datatype cmd_outcome = CmdOk | CmdTimedOut | CmdNonZero string

datatype level = INFO | WARN | ERROR

text \<open>The lines \<^verbatim>\<open>log\<close> prints, one constructor for each call in the source, with
  the parts of the message that vary.\<close>

datatype logmsg =
    LogIllegalAccess
  | LogInitMissing
  | LogInitDone string
  | LogArchived string
  | LogPruned string
  | LogPruneFailed error
  | LogDeployStart
  | LogBackupException error
  | LogWritten
  | LogChecking
  | LogRestarting
  | LogMonitoring
  | LogSuccess
  | LogAborted error
  | LogRollingBack
  | LogRollbackOk
  | LogRollbackFatal
  | LogCleanupFirst
  | LogRollbackException error

text \<open>
  The effects, in the order they happen: a line logged, a call of a \<^verbatim>\<open>fs\<close>
  function that can throw (whether it throws or not), an external command, a timer the
  handler awaits.
\<close>

datatype event =
    EvLog level logmsg
  | EvMkdir string
  | EvWrite string string
  | EvRename string string
  | EvUnlink string
  | EvRead string
  | EvReaddir string
  | EvStat string
  | EvExec string
  | EvSleep nat

text \<open>
  The state of the process and of the machine around it.
  \<^item> \<open>files\<close>: the regular files, path to content and modification time; the first
    binding of a path counts. \<open>dirs\<close>: the directories, path to modification time.
  \<^item> \<open>isDeploying\<close>: the global deployment lock.
  \<^item> \<open>trace\<close>: the effects so far.
  \<^item> \<open>io_env\<close>, \<open>cmd_env\<close>, \<open>clock_env\<close>: the environment. The \<open>n\<close>-th call
    of a \<^verbatim>\<open>fs\<close> function that can throw ends as \<open>io_env n\<close> says, the \<open>n\<close>-th
    external command as \<open>cmd_env n\<close> says, and the \<open>n\<close>-th reading of the clock (by
    \<^verbatim>\<open>Date\<close>, or by the file system for a modification time) shows \<open>clock_env n\<close>.
    \<open>n_io\<close>, \<open>n_cmd\<close> and \<open>n_clock\<close> count the calls made so far.
\<close>

record world =
  files :: "(string \<times> fnode) list"
  dirs :: "(string \<times> nat) list"
  isDeploying :: bool
  trace :: "event list"
  io_env :: "nat \<Rightarrow> io_outcome"
  cmd_env :: "nat \<Rightarrow> cmd_outcome"
  clock_env :: "nat \<Rightarrow> date"
  n_io :: nat
  n_cmd :: nat
  n_clock :: nat

definition emit :: "event \<Rightarrow> world \<Rightarrow> world" where
  "emit e w = w\<lparr>trace := trace w @ [e]\<rparr>"

text \<open>\<^verbatim>\<open>log(msg, level)\<close>.\<close>

definition log :: "level \<Rightarrow> logmsg \<Rightarrow> world \<Rightarrow> world" where
  "log lv m w = emit (EvLog lv m) w"

text \<open>\<^verbatim>\<open>await new Promise(r => setTimeout(r, ms))\<close>.\<close>

definition sleep :: "nat \<Rightarrow> world \<Rightarrow> world" where
  "sleep ms w = emit (EvSleep ms) w"

text \<open>One call of a \<^verbatim>\<open>fs\<close> function that can throw: the event, and the oracle moves on.\<close>

definition io_call :: "event \<Rightarrow> world \<Rightarrow> world" where
  "io_call e w = emit e (w\<lparr>n_io := Suc (n_io w)\<rparr>)"

subsection \<open>The functions of \<^verbatim>\<open>fs\<close> and \<^verbatim>\<open>path\<close>\<close>

text \<open>\<^verbatim>\<open>path.join\<close> and \<^verbatim>\<open>path.dirname\<close>, for the paths of the
  configuration (absolute, without \<open>.\<close>, \<open>..\<close> or a trailing slash).\<close>

definition path_join :: "string \<Rightarrow> string \<Rightarrow> string" where
  "path_join d f = d @ ''/'' @ f"

definition path_dirname :: "string \<Rightarrow> string" where
  "path_dirname p =
     (if CHR ''/'' \<notin> set p then ''.''
      else (let d = rev (tl (dropWhile (\<lambda>c. c \<noteq> CHR ''/'') (rev p)))
            in if d = [] then ''/'' else d))"

text \<open>\<^verbatim>\<open>fs.existsSync\<close> never throws.\<close>

definition existsSync :: "string \<Rightarrow> world \<Rightarrow> bool" where
  "existsSync p w = (map_of (files w) p \<noteq> None \<or> map_of (dirs w) p \<noteq> None)"

text \<open>\<^verbatim>\<open>fs.mkdirSync(p, { recursive: true })\<close>: a directory that is there is left
  as it is; a new one is stamped with the time of the file system's clock.\<close>

definition mkdirSync :: "string \<Rightarrow> world \<Rightarrow> world \<times> (error + unit)" where
  "mkdirSync p w =
     (let t = epoch_ms (clock_env w (n_clock w));
          w1 = io_call (EvMkdir p) (w\<lparr>n_clock := Suc (n_clock w)\<rparr>)
      in case io_env w (n_io w) of
           IoOk \<Rightarrow>
             (if map_of (dirs w) p \<noteq> None then (w1, Inr ())
              else (w1\<lparr>dirs := dirs w1 @ [(p, t)]\<rparr>, Inr ()))
         | IoFail m left \<Rightarrow> (w1, Inl (IoError m)))"

text \<open>
  \<^verbatim>\<open>fs.writeFileSync(p, c)\<close>. The file system stamps the file with the time of
  its clock.
\<close>

definition writeFileSync :: "string \<Rightarrow> string \<Rightarrow> world \<Rightarrow> world \<times> (error + unit)" where
  "writeFileSync p c w =
     (let t = epoch_ms (clock_env w (n_clock w));
          w1 = io_call (EvWrite p c) (w\<lparr>n_clock := Suc (n_clock w)\<rparr>)
      in case io_env w (n_io w) of
           IoOk \<Rightarrow>
             (w1\<lparr>files := AList.update p \<lparr>fdata = c, mtime = t\<rparr> (files w1)\<rparr>, Inr ())
         | IoFail m None \<Rightarrow> (w1, Inl (IoError m))
         | IoFail m (Some left) \<Rightarrow>
             (w1\<lparr>files := AList.update p \<lparr>fdata = left, mtime = t\<rparr> (files w1)\<rparr>,
              Inl (IoError m)))"

text \<open>
  \<^verbatim>\<open>fs.renameSync(src, dst)\<close>: it replaces \<open>dst\<close> in one step, or throws and
  changes nothing.
\<close>

definition renameSync :: "string \<Rightarrow> string \<Rightarrow> world \<Rightarrow> world \<times> (error + unit)" where
  "renameSync src dst w =
     (let w1 = io_call (EvRename src dst) w in
      case io_env w (n_io w) of
        IoFail m left \<Rightarrow> (w1, Inl (IoError m))
      | IoOk \<Rightarrow>
          (case map_of (files w) src of
             None \<Rightarrow> (w1, Inl (IoError ''ENOENT''))
           | Some f \<Rightarrow>
               (w1\<lparr>files := AList.update dst f (AList.delete src (files w1))\<rparr>, Inr ())))"

text \<open>\<^verbatim>\<open>fs.unlinkSync(p)\<close>: it removes a regular file, and throws on a
  directory and on a path that does not exist.\<close>

definition unlinkSync :: "string \<Rightarrow> world \<Rightarrow> world \<times> (error + unit)" where
  "unlinkSync p w =
     (let w1 = io_call (EvUnlink p) w in
      case io_env w (n_io w) of
        IoFail m left \<Rightarrow> (w1, Inl (IoError m))
      | IoOk \<Rightarrow>
          (case map_of (files w) p of
             None \<Rightarrow>
               (w1, Inl (IoError (if map_of (dirs w) p \<noteq> None then ''EISDIR'' else ''ENOENT'')))
           | Some f \<Rightarrow> (w1\<lparr>files := AList.delete p (files w1)\<rparr>, Inr ())))"

text \<open>\<^verbatim>\<open>fs.readFileSync(p, 'utf8')\<close>: the bytes of the file, decoded.\<close>

definition readFileSync :: "libs \<Rightarrow> string \<Rightarrow> world \<Rightarrow> world \<times> (error + string)" where
  "readFileSync L p w =
     (let w1 = io_call (EvRead p) w in
      case io_env w (n_io w) of
        IoFail m left \<Rightarrow> (w1, Inl (IoError m))
      | IoOk \<Rightarrow>
          (case map_of (files w) p of
             None \<Rightarrow>
               (w1, Inl (IoError (if map_of (dirs w) p \<noteq> None then ''EISDIR'' else ''ENOENT'')))
           | Some f \<Rightarrow> (w1, Inr (utf8_decode L (fdata f)))))"

text \<open>The modification time of what is at the path \<open>p\<close>, a regular file or a
  directory.\<close>

definition mtime_of :: "world \<Rightarrow> string \<Rightarrow> nat option" where
  "mtime_of w p =
     (case map_of (files w) p of
        Some f \<Rightarrow> Some (mtime f)
      | None \<Rightarrow> map_of (dirs w) p)"

text \<open>\<^verbatim>\<open>fs.statSync(p).mtime.getTime()\<close>.\<close>

definition statSync :: "string \<Rightarrow> world \<Rightarrow> world \<times> (error + nat)" where
  "statSync p w =
     (let w1 = io_call (EvStat p) w in
      case io_env w (n_io w) of
        IoFail m left \<Rightarrow> (w1, Inl (IoError m))
      | IoOk \<Rightarrow>
          (case mtime_of w p of
             None \<Rightarrow> (w1, Inl (IoError ''ENOENT''))
           | Some t \<Rightarrow> (w1, Inr t)))"

text \<open>What is left of \<open>s\<close> after the prefix \<open>p\<close>, when \<open>s\<close> starts with \<open>p\<close>.\<close>

fun strip_prefix :: "string \<Rightarrow> string \<Rightarrow> string option" where
  "strip_prefix [] s = Some s"
| "strip_prefix (a # p) [] = None"
| "strip_prefix (a # p) (b # s) = (if a = b then strip_prefix p s else None)"

text \<open>The name under which the directory \<open>dir\<close> lists what is at the path \<open>p\<close>, when
  that is an entry of the directory.\<close>

definition entry_name :: "string \<Rightarrow> string \<Rightarrow> string option" where
  "entry_name dir p =
     (case strip_prefix (dir @ ''/'') p of
        None \<Rightarrow> None
      | Some n \<Rightarrow> if n = [] \<or> CHR ''/'' \<in> set n then None else Some n)"

text \<open>
  \<^verbatim>\<open>fs.readdirSync(dir)\<close>: the names of the entries of the directory, regular
  files and sub-directories, each once, sorted (bytewise, as the library under Node
  returns them).
\<close>

definition dirents :: "string \<Rightarrow> world \<Rightarrow> string list" where
  "dirents dir w =
     sort (remdups (List.map_filter (entry_name dir) (map fst (files w) @ map fst (dirs w))))"

definition readdirSync :: "string \<Rightarrow> world \<Rightarrow> world \<times> (error + string list)" where
  "readdirSync dir w =
     (let w1 = io_call (EvReaddir dir) w in
      case io_env w (n_io w) of
        IoFail m left \<Rightarrow> (w1, Inl (IoError m))
      | IoOk \<Rightarrow> (w1, Inr (dirents dir w)))"

subsection \<open>The clock and external commands\<close>

text \<open>\<^verbatim>\<open>new Date()\<close>; \<^verbatim>\<open>Date.now()\<close> is its \<open>epoch_ms\<close>.\<close>

definition new_Date :: "world \<Rightarrow> world \<times> date" where
  "new_Date w = (w\<lparr>n_clock := Suc (n_clock w)\<rparr>, clock_env w (n_clock w))"

text \<open>One call of \<^verbatim>\<open>execSync\<close>: the event, and the oracle moves on.\<close>

definition exec_call :: "string \<Rightarrow> world \<Rightarrow> world" where
  "exec_call command w = emit (EvExec command) (w\<lparr>n_cmd := Suc (n_cmd w)\<rparr>)"

text \<open>\<^verbatim>\<open>runCmd\<close>: the command under the timeout, its failure as one of two errors.\<close>

definition runCmd :: "config \<Rightarrow> string \<Rightarrow> world \<Rightarrow> world \<times> (error + unit)" where
  "runCmd C command w =
     (let w1 = exec_call command w in
      case cmd_env w (n_cmd w) of
        CmdOk \<Rightarrow> (w1, Inr ())
      | CmdTimedOut \<Rightarrow> (w1, Inl (CmdTimeout command))
      | CmdNonZero m \<Rightarrow> (w1, Inl (CmdFailed m)))"

text \<open>\<^verbatim>\<open>checkServiceHealth\<close>: true when the status command exits with 0, false
  when \<^verbatim>\<open>execSync\<close> throws.\<close>

definition checkServiceHealth :: "config \<Rightarrow> world \<Rightarrow> world \<times> bool" where
  "checkServiceHealth C w =
     (exec_call (CMD_STATUS C) w, cmd_env w (n_cmd w) = CmdOk)"

subsection \<open>\<^verbatim>\<open>atomicWrite\<close>\<close>

text \<open>The \<^verbatim>\<open>catch\<close> block: the temporary file is unlinked when it exists, and an
  exception of the unlinking is swallowed.\<close>

definition cleanupTemp :: "string \<Rightarrow> world \<Rightarrow> world" where
  "cleanupTemp tempPath w =
     (if existsSync tempPath w then fst (unlinkSync tempPath w) else w)"

text \<open>\<^verbatim>\<open>filePath + ".tmp." + Date.now()\<close>.\<close>

definition tempPathOf :: "string \<Rightarrow> nat \<Rightarrow> string" where
  "tempPathOf filePath now = filePath @ ''.tmp.'' @ dec now"

text \<open>
  \<^verbatim>\<open>atomicWrite(filePath, content)\<close>, with the worlds it goes through: the world
  it starts in and the one after each call of a \<^verbatim>\<open>fs\<close> function, the last of
  them the world it ends in. These are the states of the disk another process can see.
\<close>

definition atomicWrite_run ::
  "string \<Rightarrow> string \<Rightarrow> world \<Rightarrow> world list \<times> (error + unit)" where
  "atomicWrite_run filePath content w =
     (let (w0, d) = new_Date w;
          tempPath = tempPathOf filePath (epoch_ms d)
      in case writeFileSync tempPath content w0 of
           (w1, Inl e) \<Rightarrow> ([w, w1, cleanupTemp tempPath w1], Inl e)
         | (w1, Inr u) \<Rightarrow>
             (case renameSync tempPath filePath w1 of
                (w2, Inl e) \<Rightarrow> ([w, w1, w2, cleanupTemp tempPath w2], Inl e)
              | (w2, Inr u) \<Rightarrow> ([w, w1, w2], Inr ())))"

definition atomicWrite :: "string \<Rightarrow> string \<Rightarrow> world \<Rightarrow> world \<times> (error + unit)" where
  "atomicWrite filePath content w =
     (case atomicWrite_run filePath content w of (ws, r) \<Rightarrow> (last ws, r))"

subsection \<open>\<^verbatim>\<open>ensureSystemConfig\<close>\<close>

text \<open>\<^verbatim>\<open>if (!fs.existsSync(dir)) fs.mkdirSync(dir, { recursive: true })\<close>.\<close>

definition ensureDir :: "string \<Rightarrow> world \<Rightarrow> world \<times> (error + unit)" where
  "ensureDir dir w = (if \<not> existsSync dir w then mkdirSync dir w else (w, Inr ()))"

definition ensureSystemConfig :: "libs \<Rightarrow> config \<Rightarrow> world \<Rightarrow> world \<times> (error + unit)" where
  "ensureSystemConfig L C w =
     (let sysPath = path_join (BASE_DIR C) (SYSTEM_FILE C) in
      case ensureDir (BASE_DIR C) w of
        (w1, Inl e) \<Rightarrow> (w1, Inl e)
      | (w1, Inr u) \<Rightarrow>
          if \<not> existsSync sysPath w1 then
            (let w2 = log WARN LogInitMissing w1 in
             case ensureDir (path_dirname cache_file_path) w2 of
               (w3, Inl e) \<Rightarrow> (w3, Inl (SysConfigFailed e))
             | (w3, Inr u) \<Rightarrow>
                 (case atomicWrite sysPath (json_stringify L DEFAULT_SYSTEM_CONFIG) w3 of
                    (w4, Inl e) \<Rightarrow> (w4, Inl (SysConfigFailed e))
                  | (w4, Inr u) \<Rightarrow> (log INFO (LogInitDone sysPath) w4, Inr ())))
          else (w1, Inr ()))"

subsection \<open>\<^verbatim>\<open>rotateBackups\<close>\<close>

text \<open>\<^verbatim>\<open>toISOString().replace(/[-:T]/g, '').slice(0, 14)\<close>.\<close>

definition timestampOf :: "date \<Rightarrow> string" where
  "timestampOf d =
     take 14 (filter (\<lambda>c. c \<noteq> CHR ''-'' \<and> c \<noteq> CHR '':'' \<and> c \<noteq> CHR ''T'') (toISOString d))"

definition backupName :: "date \<Rightarrow> string" where
  "backupName d = ''proxy_'' @ timestampOf d @ ''.json''"

definition startsWith :: "string \<Rightarrow> string \<Rightarrow> bool" where
  "startsWith s p = (take (length p) s = p)"

definition endsWith :: "string \<Rightarrow> string \<Rightarrow> bool" where
  "endsWith s p = (length p \<le> length s \<and> drop (length s - length p) s = p)"

text \<open>The filter of the listing: \<^verbatim>\<open>f.startsWith('proxy_') && f.endsWith('.json')\<close>.\<close>

definition is_backup_name :: "string \<Rightarrow> bool" where
  "is_backup_name f = (startsWith f ''proxy_'' \<and> endsWith f ''.json'')"

text \<open>The \<^verbatim>\<open>map\<close> of the listing: each name with the modification time of its
  file. The first \<^verbatim>\<open>statSync\<close> that throws ends it.\<close>

fun statAll :: "string \<Rightarrow> string list \<Rightarrow> world \<Rightarrow> world \<times> (error + (string \<times> nat) list)" where
  "statAll dir [] w = (w, Inr [])"
| "statAll dir (f # fs) w =
     (case statSync (path_join dir f) w of
        (w1, Inl e) \<Rightarrow> (w1, Inl e)
      | (w1, Inr t) \<Rightarrow>
          (case statAll dir fs w1 of
             (w2, Inl e) \<Rightarrow> (w2, Inl e)
           | (w2, Inr r) \<Rightarrow> (w2, Inr ((f, t) # r))))"

text \<open>
  \<^verbatim>\<open>sort((a, b) => b.time - a.time)\<close>: the newest first. The sort of JavaScript is
  stable: entries of the same time keep their order.
\<close>

fun insert_desc :: "string \<times> nat \<Rightarrow> (string \<times> nat) list \<Rightarrow> (string \<times> nat) list" where
  "insert_desc x [] = [x]"
| "insert_desc x (y # ys) =
     (if snd x < snd y then y # insert_desc x ys else x # y # ys)"

definition sort_desc :: "(string \<times> nat) list \<Rightarrow> (string \<times> nat) list" where
  "sort_desc xs = foldr insert_desc xs []"

text \<open>The \<^verbatim>\<open>forEach\<close> over \<^verbatim>\<open>toDelete\<close>: the first
  \<^verbatim>\<open>unlinkSync\<close> that throws ends it.\<close>

fun unlinkAll :: "string \<Rightarrow> string list \<Rightarrow> world \<Rightarrow> world \<times> (error + unit)" where
  "unlinkAll dir [] w = (w, Inr ())"
| "unlinkAll dir (f # fs) w =
     (case unlinkSync (path_join dir f) w of
        (w1, Inl e) \<Rightarrow> (w1, Inl e)
      | (w1, Inr u) \<Rightarrow> unlinkAll dir fs (log INFO (LogPruned f) w1))"

text \<open>The body of the \<^verbatim>\<open>try\<close> block of step 3 of \<^verbatim>\<open>rotateBackups\<close>.\<close>

definition pruneBackups :: "config \<Rightarrow> world \<Rightarrow> world \<times> (error + unit)" where
  "pruneBackups C w =
     (case readdirSync (BACKUP_DIR C) w of
        (w1, Inl e) \<Rightarrow> (w1, Inl e)
      | (w1, Inr names) \<Rightarrow>
          (case statAll (BACKUP_DIR C) (filter is_backup_name names) w1 of
             (w2, Inl e) \<Rightarrow> (w2, Inl e)
           | (w2, Inr entries) \<Rightarrow>
               (let sorted = sort_desc entries in
                if MAX_BACKUPS C < length sorted
                then unlinkAll (BACKUP_DIR C) (map fst (drop (MAX_BACKUPS C) sorted)) w2
                else (w2, Inr ()))))"

definition rotateBackups :: "config \<Rightarrow> string \<Rightarrow> world \<Rightarrow> world \<times> (error + unit)" where
  "rotateBackups C currentContent w =
     (case ensureDir (BACKUP_DIR C) w of
        (w1, Inl e) \<Rightarrow> (w1, Inl e)
      | (w1, Inr u) \<Rightarrow>
          (let (w2, d) = new_Date w1;
               backupPath = path_join (BACKUP_DIR C) (backupName d)
           in case writeFileSync backupPath currentContent w2 of
                (w3, Inl e) \<Rightarrow> (w3, Inl e)
              | (w3, Inr u) \<Rightarrow>
                  (case pruneBackups C (log INFO (LogArchived (backupName d)) w3) of
                     (w4, Inl e) \<Rightarrow> (log WARN (LogPruneFailed e) w4, Inr ())
                   | (w4, Inr u) \<Rightarrow> (w4, Inr ()))))"

text \<open>The backups on disk: what the listing of step 3 finds, each name with the
  modification time of its entry.\<close>

definition backups :: "config \<Rightarrow> world \<Rightarrow> (string \<times> nat) list" where
  "backups C w =
     List.map_filter
       (\<lambda>n. case mtime_of w (path_join (BACKUP_DIR C) n) of
              None \<Rightarrow> None
            | Some t \<Rightarrow> Some (n, t))
       (filter is_backup_name (dirents (BACKUP_DIR C) w))"

subsection \<open>The \<^verbatim>\<open>/deploy\<close> handler\<close>

text \<open>
  A request: its \<^verbatim>\<open>Authorization\<close> header (\<open>None\<close> when it has none) and its
  parsed body (\<open>JNull\<close> when there is none). The four responses of the handler:
  status 401, status 429, status 200 with \<^verbatim>\<open>status: "success"\<close>, and status 500
  with \<^verbatim>\<open>status: "error"\<close> and the message of the error that ended the deployment.
\<close>

record request =
  authorization :: "string option"
  body :: json

datatype response = Unauthorized | Locked | Success | Failure error

definition targetPath :: "config \<Rightarrow> string" where
  "targetPath C = path_join (BASE_DIR C) (PROXY_FILE C)"

text \<open>The negation of \<^verbatim>\<open>!auth || auth !== `Bearer ${CONFIG.TOKEN}`\<close>.\<close>

definition authorized :: "config \<Rightarrow> request \<Rightarrow> bool" where
  "authorized C req =
     (case authorization req of
        None \<Rightarrow> False
      | Some auth \<Rightarrow> auth \<noteq> [] \<and> auth = ''Bearer '' @ TOKEN C)"

text \<open>STEP 1: the payload decrypted and parsed. It touches nothing but the request.\<close>

definition decryptAndParse :: "libs \<Rightarrow> config \<Rightarrow> json \<Rightarrow> error + json" where
  "decryptAndParse L C reqBody =
     (case get_prop reqBody ''content'' of
        Inl e \<Rightarrow> Inl e
      | Inr None \<Rightarrow> Inl PayloadEmpty
      | Inr (Some c) \<Rightarrow>
          if \<not> truthy c then Inl PayloadEmpty
          else (case aes_decrypt L c (SECRET C) of
                  Inl m \<Rightarrow> Inl (ParseFailed m)
                | Inr decrypted \<Rightarrow>
                    if decrypted = [] then Inl (ParseFailed ''Decryption failed / Secret mismatch'')
                    else (case json_parse L decrypted of
                            Inl m \<Rightarrow> Inl (ParseFailed m)
                          | Inr rawConfig \<Rightarrow> Inr rawConfig)))"

text \<open>
  STEP 3: the business file read into \<^verbatim>\<open>rollbackContent\<close> (\<open>None\<close> is
  \<^verbatim>\<open>null\<close>) and archived; an exception of either is logged and the deployment
  goes on.
\<close>

definition backupStep :: "libs \<Rightarrow> config \<Rightarrow> world \<Rightarrow> world \<times> string option" where
  "backupStep L C w =
     (if existsSync (targetPath C) w then
        (case readFileSync L (targetPath C) w of
           (w1, Inl e) \<Rightarrow> (log WARN (LogBackupException e) w1, None)
         | (w1, Inr c) \<Rightarrow>
             (case rotateBackups C c w1 of
                (w2, Inl e) \<Rightarrow> (log WARN (LogBackupException e) w2, Some c)
              | (w2, Inr u) \<Rightarrow> (w2, Some c)))
      else (w, None))"

text \<open>
  The \<^verbatim>\<open>try\<close> block up to the health monitoring (STEP 0 to STEP 5), with the
  value \<^verbatim>\<open>rollbackContent\<close> has when the block is left.
\<close>

definition deploy_try ::
  "libs \<Rightarrow> config \<Rightarrow> request \<Rightarrow> world \<Rightarrow> world \<times> string option \<times> (error + unit)" where
  "deploy_try L C req w =
     (case ensureSystemConfig L C (log INFO LogDeployStart w) of
        (w1, Inl e) \<Rightarrow> (w1, None, Inl e)
      | (w1, Inr u) \<Rightarrow>
     (case decryptAndParse L C (body req) of
        Inl e \<Rightarrow> (w1, None, Inl e)
      | Inr rawConfig \<Rightarrow>
     (case sanitize rawConfig of
        Inl e \<Rightarrow> (w1, None, Inl e)
      | Inr clean \<Rightarrow>
     (case backupStep L C w1 of (w2, rollbackContent) \<Rightarrow>
     (case atomicWrite (targetPath C) (json_stringify L clean) w2 of
        (w3, Inl e) \<Rightarrow> (w3, rollbackContent, Inl e)
      | (w3, Inr u) \<Rightarrow>
     (case runCmd C (CMD_CHECK C) (log INFO LogChecking (log INFO LogWritten w3)) of
        (w4, Inl e) \<Rightarrow> (w4, rollbackContent, Inl e)
      | (w4, Inr u) \<Rightarrow>
     (case runCmd C (CMD_RESTART C) (log INFO LogRestarting w4) of
        (w5, Inl e) \<Rightarrow> (w5, rollbackContent, Inl e)
      | (w5, Inr u) \<Rightarrow> (log INFO LogMonitoring w5, rollbackContent, Inr ()))))))))"

text \<open>
  STEP 6, the loop \<^verbatim>\<open>for (let i = 1; i <= CHECK_COUNT; i++)\<close> from the test of
  its condition at \<open>i\<close>, and the whole step: the initial delay, then the loop from 1.
\<close>

function watch_loop :: "config \<Rightarrow> nat \<Rightarrow> world \<Rightarrow> world \<times> (error + unit)" where
  "watch_loop C i w =
     (if i \<le> HEALTH_CHECK_COUNT C then
        (case checkServiceHealth C w of (w1, running) \<Rightarrow>
           if \<not> running then (w1, Inl (CrashLoop i))
           else watch_loop C (Suc i)
                  (if i < HEALTH_CHECK_COUNT C then sleep (HEALTH_INTERVAL C) w1 else w1))
      else (w, Inr ()))"
  by pat_completeness auto
termination
  by (relation "measure (\<lambda>(C, i, w). Suc (HEALTH_CHECK_COUNT C) - i)") auto

declare watch_loop.simps [simp del]

definition watch :: "config \<Rightarrow> world \<Rightarrow> world \<times> (error + unit)" where
  "watch C w = watch_loop C 1 (sleep (HEALTH_INITIAL_DELAY C) w)"

text \<open>The truthiness of \<^verbatim>\<open>rollbackContent\<close>: \<^verbatim>\<open>null\<close> and the empty
  string are falsy.\<close>

definition has_rollback :: "string option \<Rightarrow> bool" where
  "has_rollback rollbackContent =
     (case rollbackContent of None \<Rightarrow> False | Some c \<Rightarrow> c \<noteq> [])"

text \<open>The \<^verbatim>\<open>else\<close> branch of the rollback: the business file is unlinked when it
  exists, an exception of the unlinking is swallowed, and the cleanup is logged.\<close>

definition cleanupFirstDeploy :: "config \<Rightarrow> string option \<Rightarrow> world \<Rightarrow> world" where
  "cleanupFirstDeploy C rollbackContent w =
     (if existsSync (targetPath C) w \<and> \<not> has_rollback rollbackContent
      then log WARN LogCleanupFirst (fst (unlinkSync (targetPath C) w))
      else w)"

text \<open>
  The \<^verbatim>\<open>catch\<close> block up to its \<^verbatim>\<open>await\<close>. The Boolean tells whether
  the block has reached the \<^verbatim>\<open>await\<close> (the previous content is written back
  and the restart has succeeded); otherwise the block is over. An exception inside the
  block is logged and ends it.
\<close>

definition rollback_begin ::
  "config \<Rightarrow> error \<Rightarrow> string option \<Rightarrow> world \<Rightarrow> world \<times> bool" where
  "rollback_begin C err rollbackContent w =
     (let w0 = log ERROR (LogAborted err) w in
      if has_rollback rollbackContent then
        (case atomicWrite (targetPath C) (the rollbackContent) (log WARN LogRollingBack w0) of
           (w1, Inl e) \<Rightarrow> (log ERROR (LogRollbackException e) w1, False)
         | (w1, Inr u) \<Rightarrow>
             (case runCmd C (CMD_RESTART C) w1 of
                (w2, Inl e) \<Rightarrow> (log ERROR (LogRollbackException e) w2, False)
              | (w2, Inr u) \<Rightarrow> (sleep 2000 w2, True)))
      else (cleanupFirstDeploy C rollbackContent w0, False))"

text \<open>The rest of the \<^verbatim>\<open>catch\<close> block, after the \<^verbatim>\<open>await\<close>: one probe,
  and what it found is logged.\<close>

definition rollback_end :: "config \<Rightarrow> world \<Rightarrow> world" where
  "rollback_end C w =
     (case checkServiceHealth C w of (w1, running) \<Rightarrow>
        if running then log INFO LogRollbackOk w1 else log ERROR LogRollbackFatal w1)"

definition rollback :: "config \<Rightarrow> error \<Rightarrow> string option \<Rightarrow> world \<Rightarrow> world" where
  "rollback C err rollbackContent w =
     (case rollback_begin C err rollbackContent w of
        (w1, awaiting) \<Rightarrow> if awaiting then rollback_end C w1 else w1)"

text \<open>The \<^verbatim>\<open>finally\<close> block.\<close>

definition unlock :: "world \<Rightarrow> world" where
  "unlock w = w\<lparr>isDeploying := False\<rparr>"

text \<open>
  The handler run from the request to the response, nothing else running in between.
\<close>

definition deploy :: "libs \<Rightarrow> config \<Rightarrow> request \<Rightarrow> world \<Rightarrow> world \<times> response" where
  "deploy L C req w =
     (if \<not> authorized C req then (log WARN LogIllegalAccess w, Unauthorized)
      else if isDeploying w then (w, Locked)
      else
        (case deploy_try L C req (w\<lparr>isDeploying := True\<rparr>) of
           (w1, rollbackContent, Inl e) \<Rightarrow> (unlock (rollback C e rollbackContent w1), Failure e)
         | (w1, rollbackContent, Inr u) \<Rightarrow>
             (case watch C w1 of
                (w2, Inl e) \<Rightarrow> (unlock (rollback C e rollbackContent w2), Failure e)
              | (w2, Inr u) \<Rightarrow> (unlock (log INFO LogSuccess w2), Success))))"

subsection \<open>The handler on the event loop\<close>

text \<open>
  The handler is an \<^verbatim>\<open>async\<close> function: it runs without interruption up to
  an \<^verbatim>\<open>await\<close>, and other requests are served while it waits for the timer. A
  \<open>task\<close> is a handler waiting in an \<^verbatim>\<open>await\<close>, with the variables it still
  needs: in the health monitoring, about to test the loop condition at \<open>i\<close>
  (\<open>Monitor i rollbackContent\<close>), or in the rollback, about to probe the daemon
  (\<open>RollbackWait error\<close>).
\<close>

datatype task = Monitor nat "string option" | RollbackWait error

datatype progress = Done response | Suspended task

text \<open>The \<^verbatim>\<open>catch\<close> block entered: it runs to its \<^verbatim>\<open>await\<close>, or to the
  response and the \<^verbatim>\<open>finally\<close> block.\<close>

definition catch_phase :: "config \<Rightarrow> error \<Rightarrow> string option \<Rightarrow> world \<Rightarrow> world \<times> progress" where
  "catch_phase C err rollbackContent w =
     (case rollback_begin C err rollbackContent w of
        (w1, awaiting) \<Rightarrow>
          if awaiting then (w1, Suspended (RollbackWait err))
          else (unlock w1, Done (Failure err)))"

text \<open>A request arrives: the handler runs to its first \<^verbatim>\<open>await\<close> or to a response.\<close>

definition start :: "libs \<Rightarrow> config \<Rightarrow> request \<Rightarrow> world \<Rightarrow> world \<times> progress" where
  "start L C req w =
     (if \<not> authorized C req then (log WARN LogIllegalAccess w, Done Unauthorized)
      else if isDeploying w then (w, Done Locked)
      else
        (case deploy_try L C req (w\<lparr>isDeploying := True\<rparr>) of
           (w1, rollbackContent, Inl e) \<Rightarrow> catch_phase C e rollbackContent w1
         | (w1, rollbackContent, Inr u) \<Rightarrow>
             (sleep (HEALTH_INITIAL_DELAY C) w1, Suspended (Monitor 1 rollbackContent))))"

text \<open>The timer of a waiting handler fires: the handler runs to its next
  \<^verbatim>\<open>await\<close> or to its response.\<close>

definition resume :: "config \<Rightarrow> task \<Rightarrow> world \<Rightarrow> world \<times> progress" where
  "resume C t w =
     (case t of
        Monitor i rollbackContent \<Rightarrow>
          if i \<le> HEALTH_CHECK_COUNT C then
            (case checkServiceHealth C w of (w1, running) \<Rightarrow>
               if \<not> running then catch_phase C (CrashLoop i) rollbackContent w1
               else if i < HEALTH_CHECK_COUNT C
                 then (sleep (HEALTH_INTERVAL C) w1, Suspended (Monitor (Suc i) rollbackContent))
                 else (unlock (log INFO LogSuccess w1), Done Success))
          else (unlock (log INFO LogSuccess w), Done Success)
      | RollbackWait err \<Rightarrow> (unlock (rollback_end C w), Done (Failure err)))"

text \<open>How many timers a task can still wait for, at most.\<close>

fun rank :: "config \<Rightarrow> task \<Rightarrow> nat" where
  "rank C (Monitor i rollbackContent) = Suc (Suc (HEALTH_CHECK_COUNT C)) - i"
| "rank C (RollbackWait err) = 0"

text \<open>A waiting handler run to its response, nothing else running in between.\<close>

function finish :: "config \<Rightarrow> task \<Rightarrow> world \<Rightarrow> world \<times> response" where
  "finish C t w =
     (case resume C t w of
        (w1, Done r) \<Rightarrow> (w1, r)
      | (w1, Suspended t1) \<Rightarrow> finish C t1 w1)"
  by pat_completeness auto
termination
  by (relation "measure (\<lambda>(C, t, w). rank C t)")
     (auto simp: resume_def catch_phase_def split: task.splits prod.splits if_splits)

declare finish.simps [simp del]

text \<open>
  The server: the world, the handlers waiting in an \<^verbatim>\<open>await\<close>, and the responses
  sent so far. At each turn of the event loop either a request arrives and its handler
  starts, or the timer of the \<open>k\<close>-th waiting handler fires and that handler goes on.
\<close>

record server =
  machine :: world
  waiting :: "task list"
  replies :: "response list"

datatype turn = Arrive request | Wake nat

definition serve :: "libs \<Rightarrow> config \<Rightarrow> turn \<Rightarrow> server \<Rightarrow> server" where
  "serve L C ev s =
     (case ev of
        Arrive req \<Rightarrow>
          (case start L C req (machine s) of
             (w, Done r) \<Rightarrow> s\<lparr>machine := w, replies := replies s @ [r]\<rparr>
           | (w, Suspended t) \<Rightarrow> s\<lparr>machine := w, waiting := waiting s @ [t]\<rparr>)
      | Wake k \<Rightarrow>
          if k < length (waiting s) then
            (case resume C (waiting s ! k) (machine s) of
               (w, Done r) \<Rightarrow>
                 s\<lparr>machine := w,
                   waiting := take k (waiting s) @ drop (Suc k) (waiting s),
                   replies := replies s @ [r]\<rparr>
             | (w, Suspended t) \<Rightarrow> s\<lparr>machine := w, waiting := (waiting s)[k := t]\<rparr>)
          else s)"

fun serve_all :: "libs \<Rightarrow> config \<Rightarrow> turn list \<Rightarrow> server \<Rightarrow> server" where
  "serve_all L C [] s = s"
| "serve_all L C (ev # evs) s = serve_all L C evs (serve L C ev s)"

subsection \<open>What the claims are measured against\<close>

text \<open>
  The schedule the specification gives for \<open>k\<close> liveness probes spaced
  \<open>interval\<close> apart: a probe, and before every further probe a wait of the interval.
\<close>

fun probe_schedule :: "config \<Rightarrow> nat \<Rightarrow> event list" where
  "probe_schedule C 0 = []"
| "probe_schedule C (Suc 0) = [EvExec (CMD_STATUS C)]"
| "probe_schedule C (Suc (Suc k)) =
     EvExec (CMD_STATUS C) # EvSleep (HEALTH_INTERVAL C) # probe_schedule C (Suc k)"

subsection \<open>Example worlds\<close>

text \<open>
  The theorems are instantiated on these. In \<open>quiet_world\<close> the disk is empty, no
  deployment is in flight, no operation fails, the daemon is always running, and the
  clock advances by one second at each reading.
\<close>

definition ticking :: "nat \<Rightarrow> date" where
  "ticking n =
     \<lparr>epoch_ms = 1704067200000 + 1000 * n, year = 2024, month = 1, day = 1,
      hour = 0, minute = n div 60, second = n mod 60\<rparr>"

definition quiet_world :: world where
  "quiet_world =
     \<lparr>files = [], dirs = [], isDeploying = False, trace = [],
      io_env = (\<lambda>n. IoOk), cmd_env = (\<lambda>n. CmdOk), clock_env = ticking,
      n_io = 0, n_cmd = 0, n_clock = 0\<rparr>"

text \<open>Library functions for the examples: the payload is its own plaintext, every
  plaintext but \<open>{}\<close> is a syntax error, a document is serialized as \<open>doc\<close>, and the
  decoder replaces the byte \<open>0xFF\<close>, which no UTF-8 text contains, by the three bytes of
  the replacement character.\<close>

definition example_libs :: libs where
  "example_libs =
     \<lparr>aes_decrypt = (\<lambda>c secret. case c of JStr s \<Rightarrow> Inr s | _ \<Rightarrow> Inl ''Malformed UTF-8 data''),
      json_parse = (\<lambda>s. if s = ''{}'' then Inr (JObj []) else Inl ''Unexpected token''),
      json_stringify = (\<lambda>v. ''doc''),
      utf8_decode =
        (\<lambda>bytes. concat (map (\<lambda>c. if c = CHR 0xFF then [CHR 0xEF, CHR 0xBF, CHR 0xBD] else [c])
                          bytes))\<rparr>"

text \<open>A request with the configured credential and the payload \<open>c\<close>.\<close>

definition example_request :: "json \<Rightarrow> request" where
  "example_request c =
     \<lparr>authorization = Some ''Bearer my_token_123'', body = JObj [(''content'', c)]\<rparr>"

text \<open>A disk with the protected file and a business file in place.\<close>

definition deployed_world :: world where
  "deployed_world =
     quiet_world
       \<lparr>files := [(''/etc/sing-box/conf.d/00-system.json'', \<lparr>fdata = ''system'', mtime = 0\<rparr>),
                  (''/etc/sing-box/conf.d/10-proxy.json'', \<lparr>fdata = ''previous'', mtime = 0\<rparr>)],
        dirs := [(''/etc/sing-box/conf.d'', 0), (''/etc/sing-box/backups'', 0)]\<rparr>"

text \<open>
  The daemon crash-loops after the deployment: the syntax check and the restart succeed
  (commands 0 and 1), the first probe finds the daemon running and the second finds it
  stopped (commands 2 and 3), the restart of the rollback succeeds (command 4), and the
  probe after the rollback (command 5) finds the daemon running or stopped.
\<close>

definition crashloop_world :: "bool \<Rightarrow> world" where
  "crashloop_world healthy_after_rollback =
     deployed_world
       \<lparr>cmd_env := (\<lambda>n. if n = 3 \<or> (n = 5 \<and> \<not> healthy_after_rollback)
                         then CmdNonZero ''stopped'' else CmdOk)\<rparr>"

text \<open>
  What no operation of the service changes, but the handler when it takes or releases the
  lock: the second world has the environment and the lock of the first.
\<close>

definition frame :: "world \<Rightarrow> world \<Rightarrow> bool" where
  "frame w w' =
     (io_env w' = io_env w \<and> cmd_env w' = cmd_env w \<and> clock_env w' = clock_env w
      \<and> isDeploying w' = isDeploying w)"

text \<open>
  Single flight: at most one handler is waiting in an \<^verbatim>\<open>await\<close>, and the lock is
  taken exactly when one is.
\<close>

definition single_flight :: "server \<Rightarrow> bool" where
  "single_flight s =
     (length (waiting s) \<le> 1 \<and> isDeploying (machine s) = (waiting s \<noteq> []))"

text \<open>A server that has just started, on the disk of \<open>deployed_world\<close>.\<close>

definition fresh_server :: server where
  "fresh_server = \<lparr>machine = deployed_world, waiting = [], replies = []\<rparr>"

section \<open>Properties\<close>

subsection \<open>The sanitizer\<close>

lemma get_prop_cases:
  "rawConfig \<noteq> JNull \<Longrightarrow> get_prop rawConfig k = Inr (field rawConfig k)"
  by (cases rawConfig) simp_all

lemma cleanConfig_non_null:
  assumes "rawConfig \<noteq> JNull"
  shows "cleanConfig rawConfig =
     Inr [(''dns'', Some (js_or (field rawConfig ''dns'') (JObj []))),
          (''outbounds'', Some (js_or (field rawConfig ''outbounds'') (JArr []))),
          (''route'', Some (js_or (field rawConfig ''route'') (JObj []))),
          (''ntp'', field rawConfig ''ntp'')]"
  by (simp add: cleanConfig_def get_prop_cases [OF assms])

lemma cleanConfig_null: "cleanConfig JNull = Inl TypeError"
  by (simp add: cleanConfig_def)

lemma js_or_not_null: "d \<noteq> JNull \<Longrightarrow> js_or v d \<noteq> JNull"
  by (cases v) auto

lemma sanitize_non_null:
  assumes "rawConfig \<noteq> JNull"
  shows "sanitize rawConfig =
     Inr (JObj ([(''dns'', js_or (field rawConfig ''dns'') (JObj [])),
                 (''outbounds'', js_or (field rawConfig ''outbounds'') (JArr [])),
                 (''route'', js_or (field rawConfig ''route'') (JObj []))]
               @ (case field rawConfig ''ntp'' of
                    None \<Rightarrow> []
                  | Some v \<Rightarrow> if v = JNull then [] else [(''ntp'', v)])))"
  by (simp add: sanitize_def cleanConfig_non_null [OF assms] js_or_not_null
      split: option.split)

lemma sanitize_null: "sanitize JNull = Inl TypeError"
  by (simp add: sanitize_def cleanConfig_null)

lemma sanitize_keys:
  "sanitize rawConfig = Inr doc \<Longrightarrow>
     is_object doc \<and> set (keys_of doc) \<subseteq> {''dns'', ''outbounds'', ''route'', ''ntp''}"
proof (cases "rawConfig = JNull")
  case True
  assume "sanitize rawConfig = Inr doc"
  with True show ?thesis by (simp add: sanitize_null)
next
  case False
  assume "sanitize rawConfig = Inr doc"
  with sanitize_non_null [OF False] show ?thesis
    by (auto split: option.splits if_splits)
qed

text \<open>
  C3 (as stated). The claim says that each of the four fields, \<open>ntp\<close> among them, is
  defaulted to an empty mapping when the input lacks it. The source gives \<open>ntp\<close> no
  default: from the empty object the sanitizer produces a document with the three other
  fields and no \<open>ntp\<close>.
\<close>

theorem sanitize_ntp_not_defaulted:
  "sanitize (JObj []) =
     Inr (JObj [(''dns'', JObj []), (''outbounds'', JArr []), (''route'', JObj [])])
   \<and> field (JObj [(''dns'', JObj []), (''outbounds'', JArr []), (''route'', JObj [])]) ''ntp''
       = None"
  by (simp add: sanitize_def cleanConfig_def)

text \<open>
  C3 (amended). For every decoded document but \<^verbatim>\<open>null\<close>, the sanitizer produces an
  object in which each of \<open>dns\<close>, \<open>outbounds\<close> and \<open>route\<close> is the input's value when
  that is truthy, and the empty mapping (for \<open>outbounds\<close> the empty sequence) when the
  input lacks the field or holds a falsy value in it; \<open>ntp\<close> is the input's value, and is
  dropped when the input lacks it or holds \<^verbatim>\<open>null\<close> in it; no field of the output
  is \<^verbatim>\<open>null\<close>.
\<close>

theorem sanitize_defaults:
  assumes "rawConfig \<noteq> JNull"
  shows "\<exists>doc. sanitize rawConfig = Inr doc \<and> is_object doc
     \<and> field doc ''dns'' =
         Some (case field rawConfig ''dns'' of
                 None \<Rightarrow> JObj [] | Some v \<Rightarrow> if truthy v then v else JObj [])
     \<and> field doc ''outbounds'' =
         Some (case field rawConfig ''outbounds'' of
                 None \<Rightarrow> JArr [] | Some v \<Rightarrow> if truthy v then v else JArr [])
     \<and> field doc ''route'' =
         Some (case field rawConfig ''route'' of
                 None \<Rightarrow> JObj [] | Some v \<Rightarrow> if truthy v then v else JObj [])
     \<and> field doc ''ntp'' =
         (case field rawConfig ''ntp'' of
            None \<Rightarrow> None | Some v \<Rightarrow> if v = JNull then None else Some v)
     \<and> (\<forall>k. field doc k \<noteq> Some JNull)"
proof -
  have nn: "\<And>v d. d \<noteq> JNull \<Longrightarrow> js_or v d \<noteq> JNull"
    by (rule js_or_not_null)
  show ?thesis
    unfolding sanitize_non_null [OF assms]
    by (auto split: option.splits simp: nn)
qed

theorem sanitize_defaults_witness:
  "\<exists>doc. sanitize (JObj [(''dns'', JNum 0), (''ntp'', JNull)]) = Inr doc
     \<and> field doc ''dns'' = Some (JObj []) \<and> field doc ''ntp'' = None"
  using sanitize_defaults [of "JObj [(''dns'', JNum 0), (''ntp'', JNull)]"]
  by auto

subsection \<open>Authentication\<close>

text \<open>
  C8. The credential is compared with \<open>Bearer\<close>, a space and the configured token, as
  strings. A request with that header is not answered \<open>Unauthorized\<close>. A request with
  any other header, or with none, is answered \<open>Unauthorized\<close>, and the world after it
  is the world before it with one line logged: the lock, the files, the directories and
  the counters of file operations, external commands and clock readings are what they
  were. This holds for the handler run to its response and for its first turn on the
  event loop.
\<close>

theorem unauthorized_no_effect:
  "(authorization req = Some (''Bearer '' @ TOKEN C) \<longrightarrow>
       snd (deploy L C req w) \<noteq> Unauthorized)
   \<and> (authorization req \<noteq> Some (''Bearer '' @ TOKEN C) \<longrightarrow>
       deploy L C req w =
         (w\<lparr>trace := trace w @ [EvLog WARN LogIllegalAccess]\<rparr>, Unauthorized)
       \<and> start L C req w =
         (w\<lparr>trace := trace w @ [EvLog WARN LogIllegalAccess]\<rparr>, Done Unauthorized))"
  by (auto simp: deploy_def start_def authorized_def log_def emit_def
      split: option.splits prod.splits sum.splits)

theorem unauthorized_no_effect_witness:
  "deploy example_libs CONFIG
     \<lparr>authorization = Some ''Bearer my_token_12'', body = JObj []\<rparr> deployed_world
   = (deployed_world\<lparr>trace := [EvLog WARN LogIllegalAccess]\<rparr>, Unauthorized)
   \<and> deploy example_libs CONFIG \<lparr>authorization = None, body = JObj []\<rparr> deployed_world
   = (deployed_world\<lparr>trace := [EvLog WARN LogIllegalAccess]\<rparr>, Unauthorized)
   \<and> snd (deploy example_libs CONFIG (example_request (JStr ''{}'')) deployed_world)
       \<noteq> Unauthorized"
proof -
  have t: "trace deployed_world = []"
    by (simp add: deployed_world_def quiet_world_def)
  have a: "authorization \<lparr>authorization = Some ''Bearer my_token_12'', body = JObj []\<rparr>
             \<noteq> Some (''Bearer '' @ TOKEN CONFIG)"
    by (simp add: CONFIG_def)
  have b: "authorization \<lparr>authorization = None, body = JObj []\<rparr>
             \<noteq> Some (''Bearer '' @ TOKEN CONFIG)"
    by simp
  have c: "authorization (example_request (JStr ''{}'')) = Some (''Bearer '' @ TOKEN CONFIG)"
    by (simp add: example_request_def CONFIG_def)
  from unauthorized_no_effect
         [of "\<lparr>authorization = Some ''Bearer my_token_12'', body = JObj []\<rparr>" CONFIG
             example_libs deployed_world]
       unauthorized_no_effect
         [of "\<lparr>authorization = None, body = JObj []\<rparr>" CONFIG example_libs deployed_world]
       unauthorized_no_effect
         [of "example_request (JStr ''{}'')" CONFIG example_libs deployed_world]
       a b c
  show ?thesis by (simp add: t)
qed

subsection \<open>The health monitor\<close>

lemma watch_loop_running:
  "i + m = Suc (HEALTH_CHECK_COUNT C) \<Longrightarrow>
   \<forall>k<m. cmd_env w (n_cmd w + k) = CmdOk \<Longrightarrow>
   watch_loop C i w =
     (w\<lparr>n_cmd := n_cmd w + m, trace := trace w @ probe_schedule C m\<rparr>, Inr ())"
proof (induction m arbitrary: i w)
  case 0
  then show ?case by (simp add: watch_loop.simps)
next
  case (Suc m)
  from Suc.prems have le: "i \<le> HEALTH_CHECK_COUNT C" by simp
  from Suc.prems(2) have ok: "cmd_env w (n_cmd w) = CmdOk"
    by (metis add.right_neutral zero_less_Suc)
  let ?w1 = "exec_call (CMD_STATUS C) w"
  let ?w2 = "if i < HEALTH_CHECK_COUNT C then sleep (HEALTH_INTERVAL C) ?w1 else ?w1"
  have step: "watch_loop C i w = watch_loop C (Suc i) ?w2"
    using le ok by (subst watch_loop.simps) (simp add: checkServiceHealth_def)
  have env: "cmd_env ?w2 = cmd_env w" "n_cmd ?w2 = Suc (n_cmd w)"
    by (simp_all add: exec_call_def sleep_def emit_def)
  have "\<forall>k<m. cmd_env ?w2 (n_cmd ?w2 + k) = CmdOk"
    using Suc.prems(2) by (auto simp: env)
  moreover have "Suc i + m = Suc (HEALTH_CHECK_COUNT C)" using Suc.prems(1) by simp
  ultimately have "watch_loop C (Suc i) ?w2 =
     (?w2\<lparr>n_cmd := n_cmd ?w2 + m, trace := trace ?w2 @ probe_schedule C m\<rparr>, Inr ())"
    by (intro Suc.IH) simp_all
  also have "?w2\<lparr>n_cmd := n_cmd ?w2 + m, trace := trace ?w2 @ probe_schedule C m\<rparr>
      = w\<lparr>n_cmd := n_cmd w + Suc m, trace := trace w @ probe_schedule C (Suc m)\<rparr>"
  proof (cases m)
    case 0
    with Suc.prems(1) show ?thesis by (simp add: exec_call_def sleep_def emit_def)
  next
    case (Suc m')
    with Suc.prems(1) show ?thesis by (simp add: exec_call_def sleep_def emit_def)
  qed
  finally show ?case using step by simp
qed

lemma watch_loop_stopped:
  "i + j \<le> HEALTH_CHECK_COUNT C \<Longrightarrow>
   \<forall>k<j. cmd_env w (n_cmd w + k) = CmdOk \<Longrightarrow>
   cmd_env w (n_cmd w + j) \<noteq> CmdOk \<Longrightarrow>
   watch_loop C i w =
     (w\<lparr>n_cmd := n_cmd w + Suc j, trace := trace w @ probe_schedule C (Suc j)\<rparr>,
      Inl (CrashLoop (i + j)))"
proof (induction j arbitrary: i w)
  case 0
  then show ?case
    by (subst watch_loop.simps) (simp add: checkServiceHealth_def exec_call_def emit_def)
next
  case (Suc j)
  from Suc.prems have lt: "i < HEALTH_CHECK_COUNT C" by simp
  from Suc.prems(2) have ok: "cmd_env w (n_cmd w) = CmdOk"
    by (metis add.right_neutral zero_less_Suc)
  let ?w2 = "sleep (HEALTH_INTERVAL C) (exec_call (CMD_STATUS C) w)"
  have step: "watch_loop C i w = watch_loop C (Suc i) ?w2"
    using lt ok by (subst watch_loop.simps) (simp add: checkServiceHealth_def)
  have env: "cmd_env ?w2 = cmd_env w" "n_cmd ?w2 = Suc (n_cmd w)"
    by (simp_all add: exec_call_def sleep_def emit_def)
  have "\<forall>k<j. cmd_env ?w2 (n_cmd ?w2 + k) = CmdOk"
    using Suc.prems(2) by (auto simp: env)
  moreover have "cmd_env ?w2 (n_cmd ?w2 + j) \<noteq> CmdOk"
    using Suc.prems(3) by (simp add: env)
  moreover have "Suc i + j \<le> HEALTH_CHECK_COUNT C" using Suc.prems(1) by simp
  ultimately have "watch_loop C (Suc i) ?w2 =
     (?w2\<lparr>n_cmd := n_cmd ?w2 + Suc j, trace := trace ?w2 @ probe_schedule C (Suc j)\<rparr>,
      Inl (CrashLoop (Suc i + j)))"
    by (intro Suc.IH) simp_all
  moreover have "?w2\<lparr>n_cmd := n_cmd ?w2 + Suc j, trace := trace ?w2 @ probe_schedule C (Suc j)\<rparr>
      = w\<lparr>n_cmd := n_cmd w + Suc (Suc j), trace := trace w @ probe_schedule C (Suc (Suc j))\<rparr>"
    by (simp add: exec_call_def sleep_def emit_def)
  ultimately show ?case using step by simp
qed

lemma watch_running:
  assumes "\<forall>k<HEALTH_CHECK_COUNT C. cmd_env w (n_cmd w + k) = CmdOk"
  shows "watch C w =
     (w\<lparr>n_cmd := n_cmd w + HEALTH_CHECK_COUNT C,
        trace := trace w @ EvSleep (HEALTH_INITIAL_DELAY C)
                   # probe_schedule C (HEALTH_CHECK_COUNT C)\<rparr>, Inr ())"
proof -
  let ?w0 = "sleep (HEALTH_INITIAL_DELAY C) w"
  have "watch_loop C 1 ?w0 =
     (?w0\<lparr>n_cmd := n_cmd ?w0 + HEALTH_CHECK_COUNT C,
          trace := trace ?w0 @ probe_schedule C (HEALTH_CHECK_COUNT C)\<rparr>, Inr ())"
    using assms by (intro watch_loop_running) (simp_all add: sleep_def emit_def)
  then show ?thesis by (simp add: watch_def sleep_def emit_def)
qed

lemma watch_stopped:
  assumes "j < HEALTH_CHECK_COUNT C"
    and "\<forall>k<j. cmd_env w (n_cmd w + k) = CmdOk"
    and "cmd_env w (n_cmd w + j) \<noteq> CmdOk"
  shows "watch C w =
     (w\<lparr>n_cmd := n_cmd w + Suc j,
        trace := trace w @ EvSleep (HEALTH_INITIAL_DELAY C) # probe_schedule C (Suc j)\<rparr>,
      Inl (CrashLoop (Suc j)))"
proof -
  let ?w0 = "sleep (HEALTH_INITIAL_DELAY C) w"
  have "watch_loop C 1 ?w0 =
     (?w0\<lparr>n_cmd := n_cmd ?w0 + Suc j, trace := trace ?w0 @ probe_schedule C (Suc j)\<rparr>,
      Inl (CrashLoop (1 + j)))"
    using assms by (intro watch_loop_stopped) (simp_all add: sleep_def emit_def)
  then show ?thesis by (simp add: watch_def sleep_def emit_def)
qed

text \<open>
  C6. The health monitor first waits for the initial delay; it then probes the daemon up
  to \<open>HEALTH_CHECK_COUNT\<close> times, waiting for the interval between two probes. When
  all the probes find the daemon running it succeeds, having made exactly that many
  probes. At the first probe that finds the daemon stopped, the \<open>(j+1)\<close>-th, it fails
  at once with the index \<open>j+1\<close>: no wait and no probe comes after it. It succeeds
  exactly when all the probes find the daemon running. (The \<open>k\<close>-th probe, counted from
  0, is the external command number \<open>n_cmd w + k\<close>.)
\<close>

theorem watch_probes:
  "((\<forall>k<HEALTH_CHECK_COUNT C. cmd_env w (n_cmd w + k) = CmdOk) \<longrightarrow>
      watch C w =
        (w\<lparr>n_cmd := n_cmd w + HEALTH_CHECK_COUNT C,
           trace := trace w @ EvSleep (HEALTH_INITIAL_DELAY C)
                      # probe_schedule C (HEALTH_CHECK_COUNT C)\<rparr>, Inr ()))
   \<and> (\<forall>j<HEALTH_CHECK_COUNT C.
        (\<forall>k<j. cmd_env w (n_cmd w + k) = CmdOk) \<and> cmd_env w (n_cmd w + j) \<noteq> CmdOk \<longrightarrow>
        watch C w =
          (w\<lparr>n_cmd := n_cmd w + Suc j,
             trace := trace w @ EvSleep (HEALTH_INITIAL_DELAY C) # probe_schedule C (Suc j)\<rparr>,
           Inl (CrashLoop (Suc j))))
   \<and> (snd (watch C w) = Inr () \<longleftrightarrow>
        (\<forall>k<HEALTH_CHECK_COUNT C. cmd_env w (n_cmd w + k) = CmdOk))"
proof (intro conjI impI allI)
  assume "\<forall>k<HEALTH_CHECK_COUNT C. cmd_env w (n_cmd w + k) = CmdOk"
  then show "watch C w =
        (w\<lparr>n_cmd := n_cmd w + HEALTH_CHECK_COUNT C,
           trace := trace w @ EvSleep (HEALTH_INITIAL_DELAY C)
                      # probe_schedule C (HEALTH_CHECK_COUNT C)\<rparr>, Inr ())"
    by (rule watch_running)
next
  fix j
  assume "j < HEALTH_CHECK_COUNT C"
    and "(\<forall>k<j. cmd_env w (n_cmd w + k) = CmdOk) \<and> cmd_env w (n_cmd w + j) \<noteq> CmdOk"
  then show "watch C w =
          (w\<lparr>n_cmd := n_cmd w + Suc j,
             trace := trace w @ EvSleep (HEALTH_INITIAL_DELAY C) # probe_schedule C (Suc j)\<rparr>,
           Inl (CrashLoop (Suc j)))"
    by (intro watch_stopped) simp_all
next
  show "snd (watch C w) = Inr () \<longleftrightarrow>
        (\<forall>k<HEALTH_CHECK_COUNT C. cmd_env w (n_cmd w + k) = CmdOk)"
  proof
    assume ok: "snd (watch C w) = Inr ()"
    show "\<forall>k<HEALTH_CHECK_COUNT C. cmd_env w (n_cmd w + k) = CmdOk"
    proof (rule ccontr)
      assume "\<not> (\<forall>k<HEALTH_CHECK_COUNT C. cmd_env w (n_cmd w + k) = CmdOk)"
      then obtain k where k: "k < HEALTH_CHECK_COUNT C" "cmd_env w (n_cmd w + k) \<noteq> CmdOk"
        by blast
      define j where "j = (LEAST k. cmd_env w (n_cmd w + k) \<noteq> CmdOk)"
      have bad: "cmd_env w (n_cmd w + j) \<noteq> CmdOk"
        unfolding j_def using k(2) by (rule LeastI)
      have "j \<le> k" unfolding j_def using k(2) by (rule Least_le)
      with k(1) have lt: "j < HEALTH_CHECK_COUNT C" by simp
      have "\<forall>i<j. cmd_env w (n_cmd w + i) = CmdOk"
        unfolding j_def using not_less_Least by blast
      from watch_stopped [OF lt this bad] ok show False by simp
    qed
  next
    assume "\<forall>k<HEALTH_CHECK_COUNT C. cmd_env w (n_cmd w + k) = CmdOk"
    from watch_running [OF this] show "snd (watch C w) = Inr ()" by simp
  qed
qed

theorem watch_probes_witness:
  "watch CONFIG (quiet_world\<lparr>cmd_env := (\<lambda>n. if n = 1 then CmdNonZero [] else CmdOk)\<rparr>) =
     (quiet_world\<lparr>cmd_env := (\<lambda>n. if n = 1 then CmdNonZero [] else CmdOk),
        n_cmd := 2,
        trace := [EvSleep 1500, EvExec ''rc-service sing-box status'', EvSleep 1000,
                  EvExec ''rc-service sing-box status'']\<rparr>,
      Inl (CrashLoop 2))
   \<and> watch CONFIG quiet_world =
     (quiet_world\<lparr>n_cmd := 5,
        trace := [EvSleep 1500,
                  EvExec ''rc-service sing-box status'', EvSleep 1000,
                  EvExec ''rc-service sing-box status'', EvSleep 1000,
                  EvExec ''rc-service sing-box status'', EvSleep 1000,
                  EvExec ''rc-service sing-box status'', EvSleep 1000,
                  EvExec ''rc-service sing-box status'']\<rparr>,
      Inr ())"
proof -
  let ?w = "quiet_world\<lparr>cmd_env := (\<lambda>n. if n = 1 then CmdNonZero [] else CmdOk)\<rparr>"
  have five: "HEALTH_CHECK_COUNT CONFIG = Suc (Suc (Suc (Suc (Suc 0))))"
    by (simp add: CONFIG_def)
  have a: "(\<forall>k<Suc 0. cmd_env ?w (n_cmd ?w + k) = CmdOk)
           \<and> cmd_env ?w (n_cmd ?w + Suc 0) \<noteq> CmdOk"
    by (simp add: quiet_world_def)
  have b: "\<forall>k<HEALTH_CHECK_COUNT CONFIG. cmd_env quiet_world (n_cmd quiet_world + k) = CmdOk"
    by (simp add: quiet_world_def)
  have lt: "Suc 0 < HEALTH_CHECK_COUNT CONFIG" by (simp add: CONFIG_def)
  from watch_probes [of CONFIG ?w] lt a
  have "watch CONFIG ?w =
          (?w\<lparr>n_cmd := n_cmd ?w + Suc (Suc 0),
             trace := trace ?w @ EvSleep (HEALTH_INITIAL_DELAY CONFIG)
                        # probe_schedule CONFIG (Suc (Suc 0))\<rparr>,
           Inl (CrashLoop (Suc (Suc 0))))"
    by blast
  moreover from watch_probes [of CONFIG quiet_world] b
  have "watch CONFIG quiet_world =
        (quiet_world\<lparr>n_cmd := n_cmd quiet_world + HEALTH_CHECK_COUNT CONFIG,
           trace := trace quiet_world @ EvSleep (HEALTH_INITIAL_DELAY CONFIG)
                      # probe_schedule CONFIG (HEALTH_CHECK_COUNT CONFIG)\<rparr>, Inr ())"
    by blast
  ultimately show ?thesis
    by (simp add: five) (simp add: CONFIG_def quiet_world_def numeral_2_eq_2)
qed

subsection \<open>The atomic writer\<close>

lemma tempPath_neq [simp]: "tempPathOf p n \<noteq> p" "p \<noteq> tempPathOf p n"
  by (simp_all add: tempPathOf_def)

lemma map_of_update [simp]:
  "map_of (AList.update k v al) = (map_of al)(k \<mapsto> v)"
  by (rule update_conv')

lemma map_of_delete [simp]:
  "map_of (AList.delete k al) = (map_of al)(k := None)"
  by (rule delete_conv')

text \<open>
  C4. Let \<open>ws\<close> be the worlds a call of \<open>atomicWrite\<close> goes through, from the world
  \<open>w\<close> it starts in to the one it ends in, and \<open>r\<close> its result.
  \<^item> In every one of these worlds the target path holds what it held in \<open>w\<close> (nothing,
    when it did not exist), or it holds \<open>content\<close>: no other state of the path is there
    to be seen.
  \<^item> The call succeeds exactly when the write of the temporary file and the rename both
    succeed; then the target holds \<open>content\<close> and the temporary file is gone.
  \<^item> When the write or the rename throws, the call throws that same error, and the
    target is what it was in \<open>w\<close>. The temporary file is removed best-effort: it is
    still there at the end only if unlinking it was the last thing the call did, and
    that unlinking failed.
\<close>

theorem atomicWrite_all_or_nothing:
  assumes "atomicWrite_run filePath content w = (ws, r)"
  shows "atomicWrite filePath content w = (last ws, r)
   \<and> hd ws = w
   \<and> (\<forall>s\<in>set ws. map_of (files s) filePath = map_of (files w) filePath
                 \<or> map_option fdata (map_of (files s) filePath) = Some content)
   \<and> (r = Inr () \<longleftrightarrow> io_env w (n_io w) = IoOk \<and> io_env w (Suc (n_io w)) = IoOk)
   \<and> (r = Inr () \<longrightarrow>
         map_option fdata (map_of (files (last ws)) filePath) = Some content
       \<and> map_of (files (last ws))
            (tempPathOf filePath (epoch_ms (clock_env w (n_clock w)))) = None)
   \<and> (\<forall>e. r = Inl e \<longrightarrow>
         map_of (files (last ws)) filePath = map_of (files w) filePath
       \<and> (\<exists>m left. e = IoError m
             \<and> (io_env w (n_io w) = IoFail m left
                \<or> io_env w (n_io w) = IoOk \<and> io_env w (Suc (n_io w)) = IoFail m left))
       \<and> (map_of (files (last ws))
            (tempPathOf filePath (epoch_ms (clock_env w (n_clock w)))) \<noteq> None \<longrightarrow>
           last (trace (last ws))
             = EvUnlink (tempPathOf filePath (epoch_ms (clock_env w (n_clock w))))
         \<and> io_env w (n_io (last ws) - 1) \<noteq> IoOk))"
  using assms
  unfolding atomicWrite_def atomicWrite_run_def new_Date_def writeFileSync_def renameSync_def
    cleanupTemp_def unlinkSync_def existsSync_def io_call_def emit_def Let_def
  by (auto split: io_outcome.splits option.splits prod.splits sum.splits if_splits)

theorem atomicWrite_all_or_nothing_witness:
  "map_option fdata
     (map_of (files (fst (atomicWrite ''/etc/sing-box/conf.d/10-proxy.json'' ''new''
        (deployed_world\<lparr>io_env := (\<lambda>n. if n = 0 then IoFail ''ENOSPC'' (Some ''ne'') else IoOk)\<rparr>))))
       ''/etc/sing-box/conf.d/10-proxy.json'') = Some ''previous''
   \<and> snd (atomicWrite ''/etc/sing-box/conf.d/10-proxy.json'' ''new''
        (deployed_world\<lparr>io_env := (\<lambda>n. if n = 0 then IoFail ''ENOSPC'' (Some ''ne'') else IoOk)\<rparr>))
       = Inl (IoError ''ENOSPC'')
   \<and> map_option fdata
     (map_of (files (fst (atomicWrite ''/etc/sing-box/conf.d/10-proxy.json'' ''new''
        deployed_world)))
       ''/etc/sing-box/conf.d/10-proxy.json'') = Some ''new''"
proof -
  let ?p = "''/etc/sing-box/conf.d/10-proxy.json''"
  let ?bad = "deployed_world\<lparr>io_env := (\<lambda>n. if n = 0 then IoFail ''ENOSPC'' (Some ''ne'') else IoOk)\<rparr>"
  obtain ws r where run: "atomicWrite_run ?p ''new'' ?bad = (ws, r)"
    by (cases "atomicWrite_run ?p ''new'' ?bad") blast
  obtain ws' r' where run': "atomicWrite_run ?p ''new'' deployed_world = (ws', r')"
    by (cases "atomicWrite_run ?p ''new'' deployed_world") blast
  have env: "io_env ?bad (n_io ?bad) = IoFail ''ENOSPC'' (Some ''ne'')"
    "map_of (files ?bad) ?p = Some \<lparr>fdata = ''previous'', mtime = 0\<rparr>"
    "io_env deployed_world (n_io deployed_world) = IoOk"
    "io_env deployed_world (Suc (n_io deployed_world)) = IoOk"
    by (simp_all add: deployed_world_def quiet_world_def)
  from atomicWrite_all_or_nothing [OF run] env(1)
  have r: "r \<noteq> Inr ()" and fst: "atomicWrite ?p ''new'' ?bad = (last ws, r)"
    by simp_all
  from r obtain e where e: "r = Inl e" by (cases r) auto
  from atomicWrite_all_or_nothing [OF run] e env(1)
  have "map_of (files (last ws)) ?p = map_of (files ?bad) ?p" "e = IoError ''ENOSPC''"
    by auto
  with fst e env(2) have bad: "map_option fdata
     (map_of (files (fst (atomicWrite ?p ''new'' ?bad))) ?p) = Some ''previous''"
    "snd (atomicWrite ?p ''new'' ?bad) = Inl (IoError ''ENOSPC'')"
    by simp_all
  from atomicWrite_all_or_nothing [OF run'] env(3,4)
  have "map_option fdata (map_of (files (fst (atomicWrite ?p ''new'' deployed_world))) ?p)
          = Some ''new''"
    by simp
  with bad show ?thesis by simp
qed

subsection \<open>The environment and the lock are left alone\<close>

lemmas world_ops = log_def emit_def sleep_def io_call_def exec_call_def new_Date_def Let_def

lemma frame_refl [simp]: "frame w w"
  by (simp add: frame_def)

lemma frame_trans: "frame w w1 \<Longrightarrow> frame w1 w2 \<Longrightarrow> frame w w2"
  by (simp add: frame_def)

lemma frame_emit [simp]:
  "frame w (emit e w') = frame w w'" "frame (emit e w) w' = frame w w'"
  by (simp_all add: frame_def emit_def)

lemma frame_log [simp]:
  "frame w (log lv m w') = frame w w'" "frame (log lv m w) w' = frame w w'"
  by (simp_all add: log_def)

lemma frame_sleep [simp]:
  "frame w (sleep ms w') = frame w w'" "frame (sleep ms w) w' = frame w w'"
  by (simp_all add: sleep_def)

lemma frame_new_Date [simp]: "frame w (fst (new_Date w))"
  by (simp add: frame_def new_Date_def)

lemma mkdirSync_frame: "mkdirSync p w = (w', r) \<Longrightarrow> frame w w'"
  by (auto simp: frame_def mkdirSync_def world_ops split: io_outcome.splits if_splits)

lemma writeFileSync_frame: "writeFileSync p c w = (w', r) \<Longrightarrow> frame w w'"
  by (auto simp: frame_def writeFileSync_def world_ops split: io_outcome.splits option.splits)

lemma renameSync_frame: "renameSync p q w = (w', r) \<Longrightarrow> frame w w'"
  by (auto simp: frame_def renameSync_def world_ops split: io_outcome.splits option.splits)

lemma unlinkSync_frame: "unlinkSync p w = (w', r) \<Longrightarrow> frame w w'"
  by (auto simp: frame_def unlinkSync_def world_ops split: io_outcome.splits option.splits)

lemma readFileSync_frame: "readFileSync L p w = (w', r) \<Longrightarrow> frame w w'"
  by (auto simp: frame_def readFileSync_def world_ops split: io_outcome.splits option.splits)

lemma statSync_frame: "statSync p w = (w', r) \<Longrightarrow> frame w w'"
  by (auto simp: frame_def statSync_def world_ops split: io_outcome.splits option.splits)

lemma readdirSync_frame: "readdirSync p w = (w', r) \<Longrightarrow> frame w w'"
  by (auto simp: frame_def readdirSync_def world_ops split: io_outcome.splits)

lemma runCmd_frame: "runCmd C c w = (w', r) \<Longrightarrow> frame w w'"
  by (auto simp: frame_def runCmd_def world_ops split: cmd_outcome.splits)

lemma checkServiceHealth_frame: "checkServiceHealth C w = (w', r) \<Longrightarrow> frame w w'"
  by (auto simp: frame_def checkServiceHealth_def world_ops)

lemma ensureDir_frame: "ensureDir d w = (w', r) \<Longrightarrow> frame w w'"
  by (auto simp: ensureDir_def split: if_splits dest: mkdirSync_frame)

lemma cleanupTemp_frame: "frame w (cleanupTemp p w)"
  by (cases "unlinkSync p w") (auto simp: cleanupTemp_def dest: unlinkSync_frame)

lemma atomicWrite_frame: "atomicWrite p c w = (w', r) \<Longrightarrow> frame w w'"
  unfolding atomicWrite_def atomicWrite_run_def new_Date_def writeFileSync_def renameSync_def
    cleanupTemp_def unlinkSync_def existsSync_def io_call_def emit_def Let_def frame_def
  by (auto split: io_outcome.splits option.splits prod.splits sum.splits if_splits)

lemma ensureSystemConfig_frame: "ensureSystemConfig L C w = (w', r) \<Longrightarrow> frame w w'"
  unfolding ensureSystemConfig_def Let_def
  by (auto split: prod.splits sum.splits if_splits
      dest!: ensureDir_frame atomicWrite_frame simp: frame_def world_ops)

lemma statAll_frame: "statAll d fs w = (w', r) \<Longrightarrow> frame w w'"
proof (induction fs arbitrary: w w' r)
  case Nil
  then show ?case by simp
next
  case (Cons f fs)
  then show ?case
    by (auto split: prod.splits sum.splits dest!: statSync_frame intro: frame_trans)
qed

lemma unlinkAll_frame: "unlinkAll d fs w = (w', r) \<Longrightarrow> frame w w'"
proof (induction fs arbitrary: w w' r)
  case Nil
  then show ?case by simp
next
  case (Cons f fs)
  show ?case
  proof (cases "unlinkSync (path_join d f) w")
    case (Pair w1 r1)
    note fr = unlinkSync_frame [OF Pair]
    show ?thesis
    proof (cases r1)
      case (Inl e)
      with Pair Cons.prems fr show ?thesis by simp
    next
      case (Inr u)
      with Pair Cons.prems have "unlinkAll d fs (log INFO (LogPruned f) w1) = (w', r)"
        by simp
      from Cons.IH [OF this] fr show ?thesis by (simp add: frame_def log_def emit_def)
    qed
  qed
qed

lemma pruneBackups_frame: "pruneBackups C w = (w', r) \<Longrightarrow> frame w w'"
  unfolding pruneBackups_def Let_def
  by (auto split: prod.splits sum.splits if_splits
      dest!: readdirSync_frame statAll_frame unlinkAll_frame simp: frame_def)

lemma rotateBackups_frame: "rotateBackups C c w = (w', r) \<Longrightarrow> frame w w'"
  unfolding rotateBackups_def Let_def new_Date_def
  by (auto split: prod.splits sum.splits if_splits
      dest!: ensureDir_frame writeFileSync_frame pruneBackups_frame
      simp: frame_def world_ops)

lemma backupStep_frame: "backupStep L C w = (w', r) \<Longrightarrow> frame w w'"
  unfolding backupStep_def
  by (auto split: prod.splits sum.splits if_splits
      dest!: readFileSync_frame rotateBackups_frame simp: frame_def world_ops)

lemma deploy_try_frame: "deploy_try L C req w = (w', rb, r) \<Longrightarrow> frame w w'"
  unfolding deploy_try_def
  by (auto split: prod.splits sum.splits
      dest!: ensureSystemConfig_frame backupStep_frame atomicWrite_frame runCmd_frame
      simp: frame_def world_ops)

lemma watch_loop_frame: "watch_loop C i w = (w', r) \<Longrightarrow> frame w w'"
proof (induction C i w rule: watch_loop.induct)
  case (1 C i w)
  show ?case
  proof (cases "i \<le> HEALTH_CHECK_COUNT C")
    case False
    with "1.prems" show ?thesis by (simp add: watch_loop.simps)
  next
    case True
    obtain w1 running where h: "checkServiceHealth C w = (w1, running)"
      by (cases "checkServiceHealth C w") blast
    note fr = checkServiceHealth_frame [OF h]
    show ?thesis
    proof (cases running)
      case False
      with True h "1.prems" fr show ?thesis by (simp add: watch_loop.simps)
    next
      case running: True
      let ?w2 = "if i < HEALTH_CHECK_COUNT C then sleep (HEALTH_INTERVAL C) w1 else w1"
      from True h running "1.prems" have "watch_loop C (Suc i) ?w2 = (w', r)"
        by (simp add: watch_loop.simps)
      from "1.IH" [OF True h [symmetric] _ this] running
      have "frame ?w2 w'" by simp
      with fr show ?thesis by (auto simp: frame_def sleep_def emit_def split: if_splits)
    qed
  qed
qed

lemma watch_frame: "watch C w = (w', r) \<Longrightarrow> frame w w'"
  by (auto simp: watch_def dest!: watch_loop_frame)

lemma cleanupFirstDeploy_frame: "frame w (cleanupFirstDeploy C rb w)"
  by (cases "unlinkSync (targetPath C) w")
     (auto simp: cleanupFirstDeploy_def dest: unlinkSync_frame)

lemma rollback_begin_frame: "rollback_begin C e rb w = (w', r) \<Longrightarrow> frame w w'"
  unfolding rollback_begin_def Let_def
  using cleanupFirstDeploy_frame [of "log ERROR (LogAborted e) w" C rb]
  by (auto split: prod.splits sum.splits if_splits
      dest!: atomicWrite_frame runCmd_frame simp: frame_def world_ops)

lemma rollback_end_frame: "frame w (rollback_end C w)"
  by (cases "checkServiceHealth C w")
     (auto simp: rollback_end_def dest: checkServiceHealth_frame)

lemma rollback_frame: "frame w (rollback C e rb w)"
  using rollback_end_frame
  by (auto simp: rollback_def split: prod.splits dest!: rollback_begin_frame
      intro: frame_trans)

subsection \<open>The lock\<close>

lemma catch_phase_lock:
  assumes "catch_phase C e rb w = (w', p)"
  shows "case p of Done r \<Rightarrow> \<not> isDeploying w' | Suspended t \<Rightarrow> isDeploying w' = isDeploying w"
proof -
  obtain w1 awaiting where rb: "rollback_begin C e rb w = (w1, awaiting)"
    by (cases "rollback_begin C e rb w") blast
  from rollback_begin_frame [OF rb] have "isDeploying w1 = isDeploying w"
    by (simp add: frame_def)
  with assms rb show ?thesis
    by (auto simp: catch_phase_def unlock_def split: if_splits)
qed

lemma resume_lock:
  assumes "resume C t w = (w', p)"
  shows "case p of Done r \<Rightarrow> \<not> isDeploying w' | Suspended t' \<Rightarrow> isDeploying w' = isDeploying w"
proof (cases t)
  case (RollbackWait e)
  with assms show ?thesis by (auto simp: resume_def unlock_def)
next
  case (Monitor i rb)
  obtain w1 running where h: "checkServiceHealth C w = (w1, running)"
    by (cases "checkServiceHealth C w") blast
  from checkServiceHealth_frame [OF h] have l1: "isDeploying w1 = isDeploying w"
    by (simp add: frame_def)
  show ?thesis
  proof (cases "i \<le> HEALTH_CHECK_COUNT C \<and> \<not> running")
    case True
    with assms Monitor h have "catch_phase C (CrashLoop i) rb w1 = (w', p)"
      by (simp add: resume_def)
    from catch_phase_lock [OF this] l1 show ?thesis by (simp split: progress.splits)
  next
    case False
    with assms Monitor h l1 show ?thesis
      by (auto simp: resume_def unlock_def sleep_def log_def emit_def split: if_splits)
  qed
qed

lemma start_lock:
  assumes "start L C req w = (w', p)"
  shows "case p of
           Done r \<Rightarrow> if r = Unauthorized \<or> r = Locked then isDeploying w' = isDeploying w
                     else \<not> isDeploying w \<and> \<not> isDeploying w'
         | Suspended t \<Rightarrow> \<not> isDeploying w \<and> isDeploying w'"
proof (cases "authorized C req \<and> \<not> isDeploying w")
  case False
  with assms show ?thesis
    by (auto simp: start_def log_def emit_def split: if_splits)
next
  case True
  obtain w1 rb r where t: "deploy_try L C req (w\<lparr>isDeploying := True\<rparr>) = (w1, rb, r)"
    by (cases "deploy_try L C req (w\<lparr>isDeploying := True\<rparr>)") auto
  from deploy_try_frame [OF t] have l1: "isDeploying w1" by (simp add: frame_def)
  show ?thesis
  proof (cases r)
    case (Inr u)
    with assms True t l1 show ?thesis
      by (auto simp: start_def sleep_def emit_def)
  next
    case (Inl e)
    with assms True t have c: "catch_phase C e rb w1 = (w', p)" by (simp add: start_def)
    from c have "\<forall>r'. p = Done r' \<longrightarrow> r' = Failure e"
      by (auto simp: catch_phase_def split: prod.splits if_splits)
    with catch_phase_lock [OF c] l1 True show ?thesis
      by (auto split: progress.splits)
  qed
qed

lemma finish_unlocks: "\<not> isDeploying (fst (finish C t w))"
proof (induction C t w rule: finish.induct)
  case (1 C t w)
  obtain w1 p where r: "resume C t w = (w1, p)" by (cases "resume C t w") blast
  show ?case
  proof (cases p)
    case (Done r')
    with r resume_lock [OF r] show ?thesis by (subst finish.simps) simp
  next
    case (Suspended t1)
    with r "1.IH" [OF r [symmetric] Suspended] show ?thesis by (subst finish.simps) simp
  qed
qed

lemma serve_single_flight:
  assumes "single_flight s"
  shows "single_flight (serve L C ev s)"
proof (cases ev)
  case (Arrive req)
  obtain w' p where st: "start L C req (machine s) = (w', p)"
    by (cases "start L C req (machine s)") blast
  from start_lock [OF st] assms Arrive st show ?thesis
    by (auto simp: serve_def single_flight_def split: progress.splits if_splits)
next
  case (Wake k)
  show ?thesis
  proof (cases "k < length (waiting s)")
    case False
    with Wake assms show ?thesis by (simp add: serve_def)
  next
    case True
    with assms have k: "k = 0" and one: "length (waiting s) = 1"
      by (auto simp: single_flight_def)
    then obtain t where ws: "waiting s = [t]" by (cases "waiting s") auto
    obtain w' p where rs: "resume C t (machine s) = (w', p)"
      by (cases "resume C t (machine s)") blast
    from resume_lock [OF rs] assms Wake k ws rs show ?thesis
      by (auto simp: serve_def single_flight_def split: progress.splits)
  qed
qed

lemma serve_all_single_flight:
  "single_flight s \<Longrightarrow> single_flight (serve_all L C evs s)"
  by (induction evs arbitrary: s) (simp_all add: serve_single_flight)

text \<open>The handler run to its response is its first turn on the event loop, and then its
  further turns with nothing in between.\<close>

lemma finish_Monitor:
  "finish C (Monitor i rb) w =
     (case watch_loop C i w of
        (w2, Inl e) \<Rightarrow> (unlock (rollback C e rb w2), Failure e)
      | (w2, Inr u) \<Rightarrow> (unlock (log INFO LogSuccess w2), Success))"
proof (induction C i w rule: watch_loop.induct)
  case (1 C i w)
  obtain w1 running where h: "checkServiceHealth C w = (w1, running)"
    by (cases "checkServiceHealth C w") blast
  show ?case
  proof (cases "i \<le> HEALTH_CHECK_COUNT C")
    case False
    then show ?thesis
      by (simp add: finish.simps [of C "Monitor i rb"] resume_def watch_loop.simps [of C i])
  next
    case le: True
    show ?thesis
    proof (cases running)
      case False
      obtain w2 awaiting where rbk: "rollback_begin C (CrashLoop i) rb w1 = (w2, awaiting)"
        by (cases "rollback_begin C (CrashLoop i) rb w1") blast
      from le h False rbk show ?thesis
        by (simp add: finish.simps [of C "Monitor i rb"] finish.simps [of C "RollbackWait (CrashLoop i)"]
            resume_def watch_loop.simps [of C i] catch_phase_def rollback_def)
    next
      case True
      show ?thesis
      proof (cases "i < HEALTH_CHECK_COUNT C")
        case lt: True
        from "1.IH" [OF le h [symmetric] _] True lt
        have "finish C (Monitor (Suc i) rb) (sleep (HEALTH_INTERVAL C) w1) =
          (case watch_loop C (Suc i) (sleep (HEALTH_INTERVAL C) w1) of
             (w2, Inl e) \<Rightarrow> (unlock (rollback C e rb w2), Failure e)
           | (w2, Inr u) \<Rightarrow> (unlock (log INFO LogSuccess w2), Success))"
          by simp
        with le h True lt show ?thesis
          by (simp add: finish.simps [of C "Monitor i rb"] resume_def watch_loop.simps [of C i])
      next
        case False
        have a: "finish C (Monitor i rb) w = (unlock (log INFO LogSuccess w1), Success)"
          using le h True False by (subst finish.simps) (simp add: resume_def)
        have b: "watch_loop C i w = watch_loop C (Suc i) w1"
          using le h True False by (subst watch_loop.simps) simp
        have c: "watch_loop C (Suc i) w1 = (w1, Inr ())"
          using le False by (subst watch_loop.simps) simp
        show ?thesis by (simp add: a b c)
      qed
    qed
  qed
qed

lemma deploy_as_turns:
  "deploy L C req w =
     (case start L C req w of
        (w1, Done r) \<Rightarrow> (w1, r)
      | (w1, Suspended t) \<Rightarrow> finish C t w1)"
proof (cases "authorized C req \<and> \<not> isDeploying w")
  case False
  then show ?thesis by (auto simp: deploy_def start_def)
next
  case True
  obtain w1 rb r where t: "deploy_try L C req (w\<lparr>isDeploying := True\<rparr>) = (w1, rb, r)"
    by (cases "deploy_try L C req (w\<lparr>isDeploying := True\<rparr>)") auto
  show ?thesis
  proof (cases r)
    case (Inr u)
    with True t show ?thesis
      by (simp add: deploy_def start_def finish_Monitor watch_def)
  next
    case (Inl e)
    obtain w2 awaiting where rbk: "rollback_begin C e rb w1 = (w2, awaiting)"
      by (cases "rollback_begin C e rb w1") blast
    from True t Inl rbk show ?thesis
      by (simp add: deploy_def start_def catch_phase_def rollback_def
          finish.simps [of C "RollbackWait e"] resume_def)
  qed
qed

text \<open>
  C7. On the event loop, whatever requests arrive and whatever timers fire, in whatever
  order: at most one deployment is in flight at any time, and the lock is taken exactly
  while one is. A request with the right credential that arrives while the lock is taken
  is answered \<open>Locked\<close> at once, and the world is left exactly as it was: no file, no
  lock, no command. A handler that reaches its response after it was admitted has
  released the lock, whichever the response (on its first turn, on a later turn, or run
  on from a wait to its end, which it always reaches); the handler run from request to
  response is these turns.
\<close>

theorem single_flight_lock:
  "(single_flight s \<longrightarrow> single_flight (serve_all L C evs s))
   \<and> (authorized C req \<and> isDeploying w \<longrightarrow> start L C req w = (w, Done Locked))
   \<and> (\<forall>w' r. start L C req w = (w', Done r) \<and> r \<noteq> Unauthorized \<and> r \<noteq> Locked \<longrightarrow>
         \<not> isDeploying w')
   \<and> (\<forall>w' r. resume C t w = (w', Done r) \<longrightarrow> \<not> isDeploying w')
   \<and> \<not> isDeploying (fst (finish C t w))
   \<and> deploy L C req w =
       (case start L C req w of
          (w1, Done r) \<Rightarrow> (w1, r)
        | (w1, Suspended t) \<Rightarrow> finish C t w1)
   \<and> (authorized C req \<and> \<not> isDeploying w \<longrightarrow>
         \<not> isDeploying (fst (deploy L C req w))
         \<and> snd (deploy L C req w) \<noteq> Locked \<and> snd (deploy L C req w) \<noteq> Unauthorized)"
proof (intro conjI impI allI)
  assume "single_flight s"
  then show "single_flight (serve_all L C evs s)" by (rule serve_all_single_flight)
next
  assume "authorized C req \<and> isDeploying w"
  then show "start L C req w = (w, Done Locked)" by (simp add: start_def)
next
  fix w' r
  assume "start L C req w = (w', Done r) \<and> r \<noteq> Unauthorized \<and> r \<noteq> Locked"
  with start_lock [of L C req w w' "Done r"] show "\<not> isDeploying w'" by simp
next
  fix w' r
  assume "resume C t w = (w', Done r)"
  from resume_lock [OF this] show "\<not> isDeploying w'" by simp
next
  show "\<not> isDeploying (fst (finish C t w))" by (rule finish_unlocks)
next
  show "deploy L C req w =
       (case start L C req w of
          (w1, Done r) \<Rightarrow> (w1, r)
        | (w1, Suspended t) \<Rightarrow> finish C t w1)"
    by (rule deploy_as_turns)
next
  assume a: "authorized C req \<and> \<not> isDeploying w"
  obtain w1 p where st: "start L C req w = (w1, p)" by (cases "start L C req w") blast
  from a st have nl: "p \<noteq> Done Locked" "p \<noteq> Done Unauthorized"
    by (auto simp: start_def catch_phase_def split: prod.splits sum.splits if_splits)
  show "\<not> isDeploying (fst (deploy L C req w))"
    using start_lock [OF st] st nl finish_unlocks
    by (auto simp: deploy_as_turns split: progress.splits)
  show "snd (deploy L C req w) \<noteq> Locked"
    using a by (auto simp: deploy_def split: prod.splits sum.splits)
  show "snd (deploy L C req w) \<noteq> Unauthorized"
    using a by (auto simp: deploy_def split: prod.splits sum.splits)
qed

theorem single_flight_lock_witness:
  "single_flight
     (serve_all example_libs CONFIG
        [Arrive (example_request (JStr ''{}'')), Arrive (example_request (JStr ''{}'')),
         Wake 0, Arrive (example_request (JStr ''{}''))]
        fresh_server)
   \<and> start example_libs CONFIG (example_request (JStr ''{}''))
         (deployed_world\<lparr>isDeploying := True\<rparr>)
       = (deployed_world\<lparr>isDeploying := True\<rparr>, Done Locked)
   \<and> \<not> isDeploying (fst (deploy example_libs CONFIG (example_request (JStr ''{}''))
         deployed_world))"
proof -
  have a: "single_flight fresh_server"
    by (simp add: single_flight_def fresh_server_def deployed_world_def quiet_world_def)
  have b: "authorized CONFIG (example_request (JStr ''{}''))"
    by (simp add: authorized_def example_request_def CONFIG_def)
  have c: "isDeploying (deployed_world\<lparr>isDeploying := True\<rparr>)" by simp
  have d: "\<not> isDeploying deployed_world"
    by (simp add: deployed_world_def quiet_world_def)
  from single_flight_lock
         [where s = fresh_server and L = example_libs and C = CONFIG
            and req = "example_request (JStr ''{}'')"
            and w = "deployed_world\<lparr>isDeploying := True\<rparr>"
            and evs = "[Arrive (example_request (JStr ''{}'')),
                        Arrive (example_request (JStr ''{}'')),
                        Wake 0, Arrive (example_request (JStr ''{}''))]"]
       a b c
  have 1: "single_flight
     (serve_all example_libs CONFIG
        [Arrive (example_request (JStr ''{}'')), Arrive (example_request (JStr ''{}'')),
         Wake 0, Arrive (example_request (JStr ''{}''))]
        fresh_server)"
    and 2: "start example_libs CONFIG (example_request (JStr ''{}''))
         (deployed_world\<lparr>isDeploying := True\<rparr>)
       = (deployed_world\<lparr>isDeploying := True\<rparr>, Done Locked)"
    by blast+
  from single_flight_lock
         [where L = example_libs and C = CONFIG
            and req = "example_request (JStr ''{}'')" and w = deployed_world]
       b d
  have 3: "\<not> isDeploying (fst (deploy example_libs CONFIG (example_request (JStr ''{}''))
         deployed_world))"
    by blast
  from 1 2 3 show ?thesis by blast
qed

subsection \<open>A payload that cannot be decrypted or parsed\<close>

lemmas eval_world = log_def emit_def sleep_def io_call_def exec_call_def unlock_def new_Date_def

lemmas eval_examples = CONFIG_def example_libs_def example_request_def deployed_world_def
  quiet_world_def

text \<open>
  C1 (the code at the failing input). The protected file and a business file holding
  \<open>previous\<close> are on disk, and an authorized request arrives whose payload decrypts to
  a text that is not JSON. The deployment fails with the parse error, as it should; but
  the \<^verbatim>\<open>catch\<close> block, finding \<^verbatim>\<open>rollbackContent\<close> still
  \<^verbatim>\<open>null\<close>, takes the deployment for a first one and unlinks the business
  file. After the request the business file is gone.
\<close>

theorem payload_error_unlinks_business_file:
  "deploy example_libs CONFIG (example_request (JStr ''garbage'')) deployed_world =
     (deployed_world
        \<lparr>files := [(''/etc/sing-box/conf.d/00-system.json'', \<lparr>fdata = ''system'', mtime = 0\<rparr>)],
         n_io := 1,
         trace := [EvLog INFO LogDeployStart,
                   EvLog ERROR (LogAborted (ParseFailed ''Unexpected token'')),
                   EvUnlink ''/etc/sing-box/conf.d/10-proxy.json'',
                   EvLog WARN LogCleanupFirst]\<rparr>,
      Failure (ParseFailed ''Unexpected token''))"
  by (simp add: deploy_def authorized_def deploy_try_def ensureSystemConfig_def ensureDir_def
      existsSync_def decryptAndParse_def rollback_def rollback_begin_def has_rollback_def
      cleanupFirstDeploy_def unlinkSync_def targetPath_def path_join_def eval_world
      eval_examples)

subsection \<open>What the operations leave on disk\<close>

lemma runCmd_files: "runCmd C c w = (w', r) \<Longrightarrow> files w' = files w"
  by (auto simp: runCmd_def exec_call_def emit_def Let_def split: cmd_outcome.splits)

lemma checkServiceHealth_files: "checkServiceHealth C w = (w', r) \<Longrightarrow> files w' = files w"
  by (auto simp: checkServiceHealth_def exec_call_def emit_def)

lemma watch_loop_files: "watch_loop C i w = (w', r) \<Longrightarrow> files w' = files w"
proof (induction C i w rule: watch_loop.induct)
  case (1 C i w)
  show ?case
  proof (cases "i \<le> HEALTH_CHECK_COUNT C")
    case False
    with "1.prems" show ?thesis by (simp add: watch_loop.simps)
  next
    case True
    obtain w1 running where h: "checkServiceHealth C w = (w1, running)"
      by (cases "checkServiceHealth C w") blast
    note fr = checkServiceHealth_files [OF h]
    show ?thesis
    proof (cases running)
      case False
      with True h "1.prems" fr show ?thesis by (simp add: watch_loop.simps)
    next
      case running: True
      let ?w2 = "if i < HEALTH_CHECK_COUNT C then sleep (HEALTH_INTERVAL C) w1 else w1"
      from True h running "1.prems" have "watch_loop C (Suc i) ?w2 = (w', r)"
        by (simp add: watch_loop.simps)
      from "1.IH" [OF True h [symmetric] _ this] running
      have "files w' = files ?w2" by simp
      with fr show ?thesis by (auto simp: sleep_def emit_def split: if_splits)
    qed
  qed
qed

lemma watch_files: "watch C w = (w', r) \<Longrightarrow> files w' = files w"
  by (auto simp: watch_def sleep_def emit_def dest!: watch_loop_files)

lemma ensureDir_files: "ensureDir d w = (w', r) \<Longrightarrow> files w' = files w"
  by (auto simp: ensureDir_def mkdirSync_def io_call_def emit_def Let_def
      split: if_splits io_outcome.splits)

lemma ensureDir_error: "ensureDir d w = (w', Inl e) \<Longrightarrow> \<exists>m. e = IoError m"
  by (auto simp: ensureDir_def mkdirSync_def Let_def split: if_splits io_outcome.splits)

lemma atomicWrite_result:
  "atomicWrite p c w = (w', r) \<Longrightarrow>
     (r = Inr () \<longrightarrow> map_option fdata (map_of (files w') p) = Some c)
   \<and> (\<forall>e. r = Inl e \<longrightarrow> (\<exists>m. e = IoError m))
   \<and> (\<forall>q. q \<noteq> p \<and> q \<noteq> tempPathOf p (epoch_ms (clock_env w (n_clock w))) \<longrightarrow>
          map_of (files w') q = map_of (files w) q)"
  unfolding atomicWrite_def atomicWrite_run_def new_Date_def writeFileSync_def renameSync_def
    cleanupTemp_def unlinkSync_def existsSync_def io_call_def emit_def Let_def
  by (auto split: io_outcome.splits option.splits prod.splits sum.splits if_splits)

lemma ensureSystemConfig_error:
  "ensureSystemConfig L C w = (w', Inl e) \<Longrightarrow>
     (\<exists>m. e = IoError m) \<or> (\<exists>e'. e = SysConfigFailed e')"
  unfolding ensureSystemConfig_def Let_def
  by (auto split: prod.splits sum.splits if_splits dest!: ensureDir_error)

lemma ensureSystemConfig_keeps:
  assumes "\<forall>now. q \<noteq> tempPathOf (path_join (BASE_DIR C) (SYSTEM_FILE C)) now"
    and "map_of (files w) q \<noteq> None"
    and "ensureSystemConfig L C w = (w1, r)"
  shows "map_of (files w1) q = map_of (files w) q"
proof -
  let ?sys = "path_join (BASE_DIR C) (SYSTEM_FILE C)"
  obtain wa ra where d: "ensureDir (BASE_DIR C) w = (wa, ra)"
    by (cases "ensureDir (BASE_DIR C) w") blast
  note fa = ensureDir_files [OF d]
  show ?thesis
  proof (cases ra)
    case (Inl e)
    with assms(3) d fa show ?thesis by (simp add: ensureSystemConfig_def)
  next
    case ra: (Inr u)
    show ?thesis
    proof (cases "existsSync ?sys wa")
      case True
      with assms(3) d ra fa show ?thesis by (simp add: ensureSystemConfig_def)
    next
      case False
      with assms(2) fa have ne: "q \<noteq> ?sys" by (auto simp: existsSync_def)
      obtain wb rb where d2:
        "ensureDir (path_dirname cache_file_path) (log WARN LogInitMissing wa) = (wb, rb)"
        by (cases "ensureDir (path_dirname cache_file_path) (log WARN LogInitMissing wa)") blast
      from ensureDir_files [OF d2] fa have fb: "files wb = files w"
        by (simp add: log_def emit_def)
      show ?thesis
      proof (cases rb)
        case (Inl e)
        with assms(3) d ra False d2 fb show ?thesis
          by (simp add: ensureSystemConfig_def)
      next
        case rb: (Inr u')
        obtain wc rc where aw:
          "atomicWrite ?sys (json_stringify L DEFAULT_SYSTEM_CONFIG) wb = (wc, rc)"
          by (cases "atomicWrite ?sys (json_stringify L DEFAULT_SYSTEM_CONFIG) wb") blast
        from atomicWrite_result [OF aw] ne assms(1)
        have "map_of (files wc) q = map_of (files wb) q" by blast
        with assms(3) d ra False d2 rb aw fb show ?thesis
          by (cases rc) (auto simp: ensureSystemConfig_def log_def emit_def)
      qed
    qed
  qed
qed

lemma get_prop_error: "get_prop v k = Inl e \<Longrightarrow> e = TypeError"
  by (cases v) simp_all

lemma decryptAndParse_error:
  "decryptAndParse L C b = Inl e \<Longrightarrow>
     e = TypeError \<or> e = PayloadEmpty \<or> (\<exists>m. e = ParseFailed m)"
  by (auto simp: decryptAndParse_def dest: get_prop_error
      split: sum.splits option.splits if_splits)

lemma sanitize_error: "sanitize raw = Inl e \<Longrightarrow> e = TypeError"
  by (cases "raw = JNull") (simp_all add: sanitize_null sanitize_non_null)

lemma deploy_try_written:
  assumes t: "deploy_try L C req w = (w1, rb, r)"
    and r: "r = Inr () \<or> (\<exists>c. r = Inl (CmdTimeout c)) \<or> (\<exists>m. r = Inl (CmdFailed m))"
  shows "\<exists>raw d. decryptAndParse L C (body req) = Inr raw \<and> sanitize raw = Inr d
           \<and> map_option fdata (map_of (files w1) (targetPath C)) = Some (json_stringify L d)"
proof -
  obtain wa ra where s0: "ensureSystemConfig L C (log INFO LogDeployStart w) = (wa, ra)"
    by (cases "ensureSystemConfig L C (log INFO LogDeployStart w)") blast
  have ra: "ra = Inr ()"
  proof (cases ra)
    case (Inl e)
    with t s0 have "r = Inl e" by (simp add: deploy_try_def)
    with ensureSystemConfig_error [of L C _ wa e] s0 Inl r show ?thesis by auto
  qed simp
  obtain raw where p: "decryptAndParse L C (body req) = Inr raw"
  proof (cases "decryptAndParse L C (body req)")
    case (Inl e)
    with t s0 ra have "r = Inl e" by (simp add: deploy_try_def)
    with decryptAndParse_error [OF Inl] r show ?thesis by auto
  qed blast
  obtain d where s: "sanitize raw = Inr d"
  proof (cases "sanitize raw")
    case (Inl e)
    with t s0 ra p have "r = Inl e" by (simp add: deploy_try_def)
    with sanitize_error [OF Inl] r show ?thesis by auto
  qed blast
  obtain wb rb2 where bs: "backupStep L C wa = (wb, rb2)"
    by (cases "backupStep L C wa") blast
  obtain wc rc where aw: "atomicWrite (targetPath C) (json_stringify L d) wb = (wc, rc)"
    by (cases "atomicWrite (targetPath C) (json_stringify L d) wb") blast
  have rc: "rc = Inr ()"
  proof (cases rc)
    case (Inl e)
    with t s0 ra p s bs aw have "r = Inl e" by (simp add: deploy_try_def)
    with atomicWrite_result [OF aw] Inl r show ?thesis by auto
  qed simp
  from atomicWrite_result [OF aw] rc
  have c: "map_option fdata (map_of (files wc) (targetPath C)) = Some (json_stringify L d)"
    by simp
  obtain wd rd where c1:
    "runCmd C (CMD_CHECK C) (log INFO LogChecking (log INFO LogWritten wc)) = (wd, rd)"
    by (cases "runCmd C (CMD_CHECK C) (log INFO LogChecking (log INFO LogWritten wc))") blast
  from runCmd_files [OF c1] have fd: "files wd = files wc" by (simp add: log_def emit_def)
  obtain we re where c2: "runCmd C (CMD_RESTART C) (log INFO LogRestarting wd) = (we, re)"
    by (cases "runCmd C (CMD_RESTART C) (log INFO LogRestarting wd)") blast
  from runCmd_files [OF c2] fd have fe: "files we = files wc" by (simp add: log_def emit_def)
  have "files w1 = files wc"
    using t s0 ra p s bs aw rc c1 c2 fd fe
    by (cases rd; cases re) (auto simp: deploy_try_def log_def emit_def)
  with c p s show ?thesis by auto
qed

lemma deploy_success_written:
  assumes "deploy L C req w = (w', Success)"
  shows "\<exists>raw d. decryptAndParse L C (body req) = Inr raw \<and> sanitize raw = Inr d
           \<and> map_option fdata (map_of (files w') (targetPath C)) = Some (json_stringify L d)"
proof -
  from assms have a: "authorized C req" "\<not> isDeploying w"
    by (auto simp: deploy_def split: if_splits)
  obtain w1 rb r1 where t: "deploy_try L C req (w\<lparr>isDeploying := True\<rparr>) = (w1, rb, r1)"
    by (cases "deploy_try L C req (w\<lparr>isDeploying := True\<rparr>)") auto
  from assms a t have r1: "r1 = Inr ()"
    by (cases r1) (simp_all add: deploy_def)
  obtain w2 r2 where wt: "watch C w1 = (w2, r2)" by (cases "watch C w1") blast
  from assms a t r1 wt have "r2 = Inr ()" and w': "w' = unlock (log INFO LogSuccess w2)"
    by (cases r2; simp add: deploy_def)+
  with watch_files [OF wt] have "files w' = files w1"
    by (simp add: unlock_def log_def emit_def)
  with deploy_try_written [OF t] r1 show ?thesis by simp
qed

subsection \<open>Evaluation on the example worlds\<close>

lemma pad_numeral:
  "pad (numeral k) n = pad (pred_numeral k) (n div 10) @ [digit n]"
  by (subst numeral_eq_Suc) (rule pad.simps)

lemma dec_numeral:
  "dec (numeral k) =
     (if numeral k < (10::nat) then [digit (numeral k)]
      else dec (numeral k div 10) @ [digit (numeral k)])"
  by (rule dec.simps)

lemma dec_small: "dec 0 = ''0''" "dec (Suc 0) = ''1''"
  by (simp_all add: dec.simps digit_def)

lemma epoch_ticking: "epoch_ms (ticking n) = 1704067200000 + 1000 * n"
  by (simp add: ticking_def)

lemma backupName_ticking_0: "backupName (ticking 0) = ''proxy_20240101000000.json''"
  by (simp add: backupName_def timestampOf_def toISOString_def digit_def ticking_def pad_numeral)

lemma tempPathOf_numeral:
  "tempPathOf p (numeral k) = p @ ''.tmp.'' @ dec (numeral k)"
  by (simp add: tempPathOf_def)

lemmas eval_names = epoch_ticking backupName_ticking_0 tempPathOf_numeral dec_numeral dec_small
  digit_def is_backup_name_def startsWith_def endsWith_def

lemmas eval_fs = existsSync_def mkdirSync_def writeFileSync_def renameSync_def unlinkSync_def
  readFileSync_def statSync_def mtime_of_def readdirSync_def dirents_def entry_name_def
  path_join_def ensureDir_def List.map_filter_simps

lemmas eval_handler = authorized_def deploy_try_def ensureSystemConfig_def
  decryptAndParse_def sanitize_def cleanConfig_def backupStep_def rotateBackups_def
  pruneBackups_def sort_desc_def atomicWrite_def atomicWrite_run_def cleanupTemp_def
  runCmd_def checkServiceHealth_def targetPath_def

lemmas weak = prod.case_cong_weak let_weak_cong

text \<open>The \<^verbatim>\<open>try\<close> block on the disk of \<open>deployed_world\<close>, whatever the
  commands after the restart do.\<close>

lemma deployed_try:
  assumes "ce 0 = CmdOk" and "ce (Suc 0) = CmdOk"
  shows "deploy_try example_libs CONFIG (example_request (JStr ''{}''))
     (deployed_world\<lparr>cmd_env := ce, isDeploying := True\<rparr>) =
   (deployed_world
      \<lparr>cmd_env := ce,
       isDeploying := True,
       files :=
         [(''/etc/sing-box/conf.d/00-system.json'', \<lparr>fdata = ''system'', mtime = 0\<rparr>),
          (''/etc/sing-box/conf.d/10-proxy.json'', \<lparr>fdata = ''doc'', mtime = 1704067203000\<rparr>),
          (''/etc/sing-box/backups/proxy_20240101000000.json'',
           \<lparr>fdata = ''previous'', mtime = 1704067201000\<rparr>)],
       trace :=
         [EvLog INFO LogDeployStart, EvRead ''/etc/sing-box/conf.d/10-proxy.json'',
          EvWrite ''/etc/sing-box/backups/proxy_20240101000000.json'' ''previous'',
          EvLog INFO (LogArchived ''proxy_20240101000000.json''),
          EvReaddir ''/etc/sing-box/backups'',
          EvStat ''/etc/sing-box/backups/proxy_20240101000000.json'',
          EvWrite ''/etc/sing-box/conf.d/10-proxy.json.tmp.1704067202000'' ''doc'',
          EvRename ''/etc/sing-box/conf.d/10-proxy.json.tmp.1704067202000''
            ''/etc/sing-box/conf.d/10-proxy.json'',
          EvLog INFO LogWritten, EvLog INFO LogChecking,
          EvExec ''/usr/bin/sing-box check -C /etc/sing-box/conf.d'',
          EvLog INFO LogRestarting, EvExec ''rc-service sing-box restart'',
          EvLog INFO LogMonitoring],
       n_io := 6, n_cmd := 2, n_clock := 4\<rparr>,
    Some ''previous'', Inr ())"
  using assms
  by (simp add: eval_handler eval_fs eval_world eval_names eval_examples Let_def cong: weak)

lemma crashloop_try:
  "deploy_try example_libs CONFIG (example_request (JStr ''{}''))
     (crashloop_world b\<lparr>isDeploying := True\<rparr>) =
   (crashloop_world b
      \<lparr>isDeploying := True,
       files :=
         [(''/etc/sing-box/conf.d/00-system.json'', \<lparr>fdata = ''system'', mtime = 0\<rparr>),
          (''/etc/sing-box/conf.d/10-proxy.json'', \<lparr>fdata = ''doc'', mtime = 1704067203000\<rparr>),
          (''/etc/sing-box/backups/proxy_20240101000000.json'',
           \<lparr>fdata = ''previous'', mtime = 1704067201000\<rparr>)],
       trace :=
         [EvLog INFO LogDeployStart, EvRead ''/etc/sing-box/conf.d/10-proxy.json'',
          EvWrite ''/etc/sing-box/backups/proxy_20240101000000.json'' ''previous'',
          EvLog INFO (LogArchived ''proxy_20240101000000.json''),
          EvReaddir ''/etc/sing-box/backups'',
          EvStat ''/etc/sing-box/backups/proxy_20240101000000.json'',
          EvWrite ''/etc/sing-box/conf.d/10-proxy.json.tmp.1704067202000'' ''doc'',
          EvRename ''/etc/sing-box/conf.d/10-proxy.json.tmp.1704067202000''
            ''/etc/sing-box/conf.d/10-proxy.json'',
          EvLog INFO LogWritten, EvLog INFO LogChecking,
          EvExec ''/usr/bin/sing-box check -C /etc/sing-box/conf.d'',
          EvLog INFO LogRestarting, EvExec ''rc-service sing-box restart'',
          EvLog INFO LogMonitoring],
       n_io := 6, n_cmd := 2, n_clock := 4\<rparr>,
    Some ''previous'', Inr ())"
  unfolding crashloop_world_def
  by (subst deployed_try) simp_all

lemma deployed_world_quiet:
  "deployed_world\<lparr>cmd_env := (\<lambda>n. CmdOk), isDeploying := True\<rparr>
     = deployed_world\<lparr>isDeploying := True\<rparr>"
  by (simp add: deployed_world_def quiet_world_def)

lemma deployed_world_cmd: "cmd_env deployed_world = (\<lambda>n. CmdOk)"
  by (simp add: deployed_world_def quiet_world_def)

lemma deployed_success:
  "snd (deploy example_libs CONFIG (example_request (JStr ''{}'')) deployed_world) = Success"
proof -
  let ?req = "example_request (JStr ''{}'')"
  obtain w1 where t: "deploy_try example_libs CONFIG ?req (deployed_world\<lparr>isDeploying := True\<rparr>)
      = (w1, Some ''previous'', Inr ())" and c: "cmd_env w1 = (\<lambda>n. CmdOk)"
    using deployed_try [of "\<lambda>n. CmdOk"] deployed_world_cmd
    by (simp add: deployed_world_quiet)
  have "\<forall>k<HEALTH_CHECK_COUNT CONFIG. cmd_env w1 (n_cmd w1 + k) = CmdOk"
    by (simp add: c)
  from watch_running [OF this] have w: "snd (watch CONFIG w1) = Inr ()" by simp
  have a: "authorized CONFIG ?req"
    by (simp add: authorized_def example_request_def CONFIG_def)
  have i: "\<not> isDeploying deployed_world"
    by (simp add: deployed_world_def quiet_world_def)
  from a i t w show ?thesis
    by (cases "watch CONFIG w1") (simp add: deploy_def)
qed
subsection \<open>The document written to the business file\<close>

text \<open>
  C2. Whatever the decoded document is, the document the sanitizer produces is an object
  whose keys are among \<open>dns\<close>, \<open>outbounds\<close>, \<open>route\<close> and \<open>ntp\<close>; none of the
  protected keys \<open>log\<close>, \<open>inbounds\<close>, \<open>experimental\<close> is a key of it. And this
  document is what the handler writes: whenever the \<^verbatim>\<open>try\<close> block has got past
  the write of STEP 4 (it ends without an error, or with the error of a command of STEP 5),
  the business file holds the serialization of the document the sanitizer made of the
  decrypted payload; and so it does at the end of every deployment answered with success.
\<close>

theorem business_file_only_business_keys:
  "(sanitize rawConfig = Inr doc \<longrightarrow>
      is_object doc
      \<and> set (keys_of doc) \<subseteq> {''dns'', ''outbounds'', ''route'', ''ntp''}
      \<and> ''log'' \<notin> set (keys_of doc)
      \<and> ''inbounds'' \<notin> set (keys_of doc)
      \<and> ''experimental'' \<notin> set (keys_of doc))
   \<and> (deploy_try L C req w = (w1, rb, r)
        \<and> (r = Inr () \<or> (\<exists>c. r = Inl (CmdTimeout c)) \<or> (\<exists>m. r = Inl (CmdFailed m))) \<longrightarrow>
        (\<exists>raw d. decryptAndParse L C (body req) = Inr raw \<and> sanitize raw = Inr d
           \<and> is_object d
           \<and> set (keys_of d) \<subseteq> {''dns'', ''outbounds'', ''route'', ''ntp''}
           \<and> map_option fdata (map_of (files w1) (targetPath C))
               = Some (json_stringify L d)))
   \<and> (deploy L C req w = (w', Success) \<longrightarrow>
        (\<exists>raw d. decryptAndParse L C (body req) = Inr raw \<and> sanitize raw = Inr d
           \<and> is_object d
           \<and> set (keys_of d) \<subseteq> {''dns'', ''outbounds'', ''route'', ''ntp''}
           \<and> map_option fdata (map_of (files w') (targetPath C))
               = Some (json_stringify L d)))"
proof (intro conjI impI)
  assume s: "sanitize rawConfig = Inr doc"
  from sanitize_keys [OF s]
  show "is_object doc" "set (keys_of doc) \<subseteq> {''dns'', ''outbounds'', ''route'', ''ntp''}"
    by simp_all
  from sanitize_keys [OF s]
  show "''log'' \<notin> set (keys_of doc)" "''inbounds'' \<notin> set (keys_of doc)"
    "''experimental'' \<notin> set (keys_of doc)"
    by auto
next
  assume "deploy_try L C req w = (w1, rb, r)
        \<and> (r = Inr () \<or> (\<exists>c. r = Inl (CmdTimeout c)) \<or> (\<exists>m. r = Inl (CmdFailed m)))"
  then have t: "deploy_try L C req w = (w1, rb, r)"
    and r: "r = Inr () \<or> (\<exists>c. r = Inl (CmdTimeout c)) \<or> (\<exists>m. r = Inl (CmdFailed m))"
    by simp_all
  from deploy_try_written [OF t r] obtain raw d where
    "decryptAndParse L C (body req) = Inr raw" "sanitize raw = Inr d"
    "map_option fdata (map_of (files w1) (targetPath C)) = Some (json_stringify L d)"
    by blast
  with sanitize_keys [of raw d]
  show "\<exists>raw d. decryptAndParse L C (body req) = Inr raw \<and> sanitize raw = Inr d
           \<and> is_object d
           \<and> set (keys_of d) \<subseteq> {''dns'', ''outbounds'', ''route'', ''ntp''}
           \<and> map_option fdata (map_of (files w1) (targetPath C))
               = Some (json_stringify L d)"
    by blast
next
  assume "deploy L C req w = (w', Success)"
  from deploy_success_written [OF this] obtain raw d where
    "decryptAndParse L C (body req) = Inr raw" "sanitize raw = Inr d"
    "map_option fdata (map_of (files w') (targetPath C)) = Some (json_stringify L d)"
    by blast
  with sanitize_keys [of raw d]
  show "\<exists>raw d. decryptAndParse L C (body req) = Inr raw \<and> sanitize raw = Inr d
           \<and> is_object d
           \<and> set (keys_of d) \<subseteq> {''dns'', ''outbounds'', ''route'', ''ntp''}
           \<and> map_option fdata (map_of (files w') (targetPath C))
               = Some (json_stringify L d)"
    by blast
qed

theorem business_file_only_business_keys_witness:
  "sanitize (JObj [(''log'', JObj [(''level'', JStr ''debug'')]),
                   (''inbounds'', JArr []),
                   (''experimental'', JObj []),
                   (''outbounds'', JArr [JObj [(''type'', JStr ''direct'')]]),
                   (''ntp'', JObj [(''enabled'', JBool True)])])
     = Inr (JObj [(''dns'', JObj []),
                  (''outbounds'', JArr [JObj [(''type'', JStr ''direct'')]]),
                  (''route'', JObj []),
                  (''ntp'', JObj [(''enabled'', JBool True)])])
   \<and> ''log'' \<notin> set (keys_of (JObj [(''dns'', JObj []),
                  (''outbounds'', JArr [JObj [(''type'', JStr ''direct'')]]),
                  (''route'', JObj []),
                  (''ntp'', JObj [(''enabled'', JBool True)])]))
   \<and> snd (deploy example_libs CONFIG (example_request (JStr ''{}'')) deployed_world) = Success
   \<and> (\<exists>raw d. decryptAndParse example_libs CONFIG (body (example_request (JStr ''{}'')))
                 = Inr raw
         \<and> sanitize raw = Inr d
         \<and> set (keys_of d) \<subseteq> {''dns'', ''outbounds'', ''route'', ''ntp''}
         \<and> map_option fdata
             (map_of (files (fst (deploy_try example_libs CONFIG (example_request (JStr ''{}''))
                 (deployed_world\<lparr>isDeploying := True\<rparr>)))) (targetPath CONFIG))
             = Some (json_stringify example_libs d))
   \<and> (\<exists>raw d. decryptAndParse example_libs CONFIG (body (example_request (JStr ''{}'')))
                 = Inr raw
         \<and> sanitize raw = Inr d
         \<and> set (keys_of d) \<subseteq> {''dns'', ''outbounds'', ''route'', ''ntp''}
         \<and> map_option fdata
             (map_of (files (fst (deploy example_libs CONFIG (example_request (JStr ''{}''))
                 deployed_world))) (targetPath CONFIG))
             = Some (json_stringify example_libs d))"
proof -
  let ?req = "example_request (JStr ''{}'')"
  let ?raw = "JObj [(''log'', JObj [(''level'', JStr ''debug'')]),
                   (''inbounds'', JArr []),
                   (''experimental'', JObj []),
                   (''outbounds'', JArr [JObj [(''type'', JStr ''direct'')]]),
                   (''ntp'', JObj [(''enabled'', JBool True)])]"
  let ?doc = "JObj [(''dns'', JObj []),
                  (''outbounds'', JArr [JObj [(''type'', JStr ''direct'')]]),
                  (''route'', JObj []),
                  (''ntp'', JObj [(''enabled'', JBool True)])]"
  have eq: "sanitize ?raw = Inr ?doc"
    by (simp add: sanitize_def cleanConfig_def)
  obtain w1 where t: "deploy_try example_libs CONFIG ?req (deployed_world\<lparr>isDeploying := True\<rparr>)
      = (w1, Some ''previous'', Inr ())"
    using deployed_try [of "\<lambda>n. CmdOk"] by (simp add: deployed_world_quiet)
  obtain w' where d: "deploy example_libs CONFIG ?req deployed_world = (w', Success)"
    using deployed_success by (cases "deploy example_libs CONFIG ?req deployed_world") simp
  from business_file_only_business_keys
         [where rawConfig = ?raw and doc = ?doc
            and L = example_libs and C = CONFIG and req = ?req
            and w = "deployed_world\<lparr>isDeploying := True\<rparr>"
            and ?w1.0 = w1 and rb = "Some ''previous''" and r = "Inr ()"]
       eq t
  have 1: "''log'' \<notin> set (keys_of ?doc)"
    and 2: "\<exists>raw d. decryptAndParse example_libs CONFIG (body ?req) = Inr raw
         \<and> sanitize raw = Inr d
         \<and> set (keys_of d) \<subseteq> {''dns'', ''outbounds'', ''route'', ''ntp''}
         \<and> map_option fdata (map_of (files w1) (targetPath CONFIG))
             = Some (json_stringify example_libs d)"
    by blast+
  from business_file_only_business_keys
         [where L = example_libs and C = CONFIG and req = ?req and w = deployed_world
            and w' = w'] d
  have 3: "\<exists>raw d. decryptAndParse example_libs CONFIG (body ?req) = Inr raw
         \<and> sanitize raw = Inr d
         \<and> set (keys_of d) \<subseteq> {''dns'', ''outbounds'', ''route'', ''ntp''}
         \<and> map_option fdata (map_of (files w') (targetPath CONFIG))
             = Some (json_stringify example_libs d)"
    by blast
  from eq 1 2 3 t d show ?thesis by simp
qed

subsection \<open>Rollback after a crash loop\<close>

lemma rollback_restores:
  assumes "prev \<noteq> []"
    and "io_env w (n_io w) = IoOk" and "io_env w (Suc (n_io w)) = IoOk"
    and "cmd_env w (n_cmd w) = CmdOk"
  shows "rollback C e (Some prev) w =
     w\<lparr>files :=
         AList.update (targetPath C)
           \<lparr>fdata = prev, mtime = epoch_ms (clock_env w (Suc (n_clock w)))\<rparr>
           (AList.delete (tempPathOf (targetPath C) (epoch_ms (clock_env w (n_clock w))))
              (AList.update (tempPathOf (targetPath C) (epoch_ms (clock_env w (n_clock w))))
                 \<lparr>fdata = prev, mtime = epoch_ms (clock_env w (Suc (n_clock w)))\<rparr>
                 (files w))),
       n_clock := Suc (Suc (n_clock w)),
       n_io := Suc (Suc (n_io w)),
       n_cmd := Suc (Suc (n_cmd w)),
       trace := trace w @
         [EvLog ERROR (LogAborted e), EvLog WARN LogRollingBack,
          EvWrite (tempPathOf (targetPath C) (epoch_ms (clock_env w (n_clock w)))) prev,
          EvRename (tempPathOf (targetPath C) (epoch_ms (clock_env w (n_clock w))))
            (targetPath C),
          EvExec (CMD_RESTART C), EvSleep 2000, EvExec (CMD_STATUS C),
          (if cmd_env w (Suc (n_cmd w)) = CmdOk then EvLog INFO LogRollbackOk
           else EvLog ERROR LogRollbackFatal)]\<rparr>"
  using assms
  by (simp add: rollback_def rollback_begin_def rollback_end_def has_rollback_def
      atomicWrite_def atomicWrite_run_def writeFileSync_def renameSync_def runCmd_def
      checkServiceHealth_def log_def emit_def sleep_def io_call_def exec_call_def
      new_Date_def Let_def)

lemma watch_loop_error:
  "watch_loop C i w = (w', Inl e) \<Longrightarrow> \<exists>j. e = CrashLoop j"
proof (induction C i w rule: watch_loop.induct)
  case (1 C i w)
  obtain w1 running where h: "checkServiceHealth C w = (w1, running)"
    by (cases "checkServiceHealth C w") blast
  show ?case
  proof (cases "i \<le> HEALTH_CHECK_COUNT C \<and> running")
    case True
    with h "1.prems" have "watch_loop C (Suc i)
        (if i < HEALTH_CHECK_COUNT C then sleep (HEALTH_INTERVAL C) w1 else w1) = (w', Inl e)"
      by (subst (asm) watch_loop.simps) simp
    with "1.IH" [OF _ h [symmetric]] True show ?thesis by simp
  next
    case False
    with h "1.prems" show ?thesis
      by (subst (asm) watch_loop.simps) (auto split: if_splits)
  qed
qed

text \<open>What the \<^verbatim>\<open>try\<close> block keeps for the rollback is what it read from the
  business file: the decoded bytes the file had when the deployment began.\<close>

lemma backupStep_content:
  assumes "backupStep L C w = (w', Some prev)"
  shows "\<exists>f. map_of (files w) (targetPath C) = Some f \<and> prev = utf8_decode L (fdata f)"
proof -
  obtain w1 r1 where rd: "readFileSync L (targetPath C) w = (w1, r1)"
    by (cases "readFileSync L (targetPath C) w") blast
  from assms rd obtain c where r1: "r1 = Inr c" and c: "c = prev"
    by (cases r1) (auto simp: backupStep_def Let_def split: if_splits prod.splits sum.splits)
  from rd r1 c show ?thesis
    by (auto simp: readFileSync_def Let_def split: io_outcome.splits option.splits)
qed

lemma deploy_try_rollbackContent:
  assumes "\<forall>now. targetPath C \<noteq> tempPathOf (path_join (BASE_DIR C) (SYSTEM_FILE C)) now"
    and "map_of (files w) (targetPath C) = Some f"
    and "deploy_try L C req w = (w1, Some prev, r)"
  shows "prev = utf8_decode L (fdata f)"
proof -
  obtain wa ra where s0: "ensureSystemConfig L C (log INFO LogDeployStart w) = (wa, ra)"
    by (cases "ensureSystemConfig L C (log INFO LogDeployStart w)") blast
  have "map_of (files wa) (targetPath C)
          = map_of (files (log INFO LogDeployStart w)) (targetPath C)"
    using assms(1,2) s0
    by (intro ensureSystemConfig_keeps [where L = L and r = ra]) (simp_all add: log_def emit_def)
  with assms(2) have fa: "map_of (files wa) (targetPath C) = Some f"
    by (simp add: log_def emit_def)
  obtain wb rb where bs: "backupStep L C wa = (wb, rb)"
    by (cases "backupStep L C wa") blast
  from assms(3) s0 bs have "rb = Some prev"
    by (auto simp: deploy_try_def Let_def split: prod.splits sum.splits if_splits)
  with bs backupStep_content [of L C wa wb prev] fa show ?thesis by auto
qed

lemma deploy_crash_rollback:
  assumes "authorized C req" and "\<not> isDeploying w"
    and "deploy_try L C req (w\<lparr>isDeploying := True\<rparr>) = (w1, rb, Inr ())"
    and "watch C w1 = (w2, Inl e)"
  shows "deploy L C req w = (unlock (rollback C e rb w2), Failure e)"
  using assms by (simp add: deploy_def)

text \<open>
  C9 (as stated). The claim says the caller is told of the recovery. The response of the
  handler after a rollback is the failure response with the message of the crash loop,
  whether the probe after the rollback finds the daemon running or stopped: what the
  probe found is only logged. In \<open>crashloop_world True\<close> the daemon is healthy after
  the rollback, the log says so, and the caller receives the same response as in
  \<open>crashloop_world False\<close>, where it is not.
\<close>

theorem recovered_is_reported_as_failure:
  "snd (deploy example_libs CONFIG (example_request (JStr ''{}'')) (crashloop_world True))
     = Failure (CrashLoop 2)
   \<and> last (trace (fst (deploy example_libs CONFIG (example_request (JStr ''{}''))
        (crashloop_world True)))) = EvLog INFO LogRollbackOk
   \<and> snd (deploy example_libs CONFIG (example_request (JStr ''{}'')) (crashloop_world False))
     = Failure (CrashLoop 2)"
proof -
  have run: "\<exists>w2. watch CONFIG (fst (deploy_try example_libs CONFIG
                (example_request (JStr ''{}'')) (crashloop_world b\<lparr>isDeploying := True\<rparr>)))
              = (w2, Inl (CrashLoop 2))
            \<and> deploy example_libs CONFIG (example_request (JStr ''{}'')) (crashloop_world b)
              = (unlock (rollback CONFIG (CrashLoop 2) (Some ''previous'') w2),
                 Failure (CrashLoop 2))
            \<and> io_env w2 = (\<lambda>n. IoOk) \<and> n_cmd w2 = 4
            \<and> cmd_env w2 = cmd_env (crashloop_world b)" for b
  proof -
    let ?w1 = "fst (deploy_try example_libs CONFIG (example_request (JStr ''{}''))
                 (crashloop_world b\<lparr>isDeploying := True\<rparr>))"
    have c: "Suc 0 < HEALTH_CHECK_COUNT CONFIG" by (simp add: CONFIG_def)
    have w: "watch CONFIG ?w1 =
        (?w1\<lparr>n_cmd := n_cmd ?w1 + Suc (Suc 0),
             trace := trace ?w1 @ EvSleep (HEALTH_INITIAL_DELAY CONFIG)
                        # probe_schedule CONFIG (Suc (Suc 0))\<rparr>,
         Inl (CrashLoop (Suc (Suc 0))))"
      by (rule watch_stopped [OF c]; simp add: crashloop_try; simp add: crashloop_world_def)
    have a: "authorized CONFIG (example_request (JStr ''{}''))"
      by (simp add: authorized_def example_request_def CONFIG_def)
    have i: "\<not> isDeploying (crashloop_world b)"
      by (simp add: crashloop_world_def deployed_world_def quiet_world_def)
    have t: "deploy_try example_libs CONFIG (example_request (JStr ''{}''))
               (crashloop_world b\<lparr>isDeploying := True\<rparr>) = (?w1, Some ''previous'', Inr ())"
      by (simp add: crashloop_try)
    from deploy_crash_rollback [OF a i t w] w show ?thesis
      by (simp add: crashloop_try numeral_2_eq_2;
          simp add: crashloop_world_def deployed_world_def quiet_world_def)
  qed
  have fin: "snd (deploy example_libs CONFIG (example_request (JStr ''{}'')) (crashloop_world b))
               = Failure (CrashLoop 2)
             \<and> last (trace (fst (deploy example_libs CONFIG (example_request (JStr ''{}''))
                  (crashloop_world b))))
               = (if b then EvLog INFO LogRollbackOk else EvLog ERROR LogRollbackFatal)" for b
  proof -
    from run [of b] obtain w2 where
      d: "deploy example_libs CONFIG (example_request (JStr ''{}'')) (crashloop_world b)
              = (unlock (rollback CONFIG (CrashLoop 2) (Some ''previous'') w2),
                 Failure (CrashLoop 2))"
      and e: "io_env w2 = (\<lambda>n. IoOk)" "n_cmd w2 = 4" "cmd_env w2 = cmd_env (crashloop_world b)"
      by blast
    have p: "''previous'' \<noteq> []" "io_env w2 (n_io w2) = IoOk"
      "io_env w2 (Suc (n_io w2)) = IoOk" "cmd_env w2 (n_cmd w2) = CmdOk"
      by (simp_all add: e crashloop_world_def)
    note r = rollback_restores [OF p, of CONFIG "CrashLoop 2"]
    from d e show ?thesis
      by (simp add: r unlock_def crashloop_world_def)
  qed
  from fin [of True] fin [of False] show ?thesis by simp
qed

text \<open>
  C9 (amended). Take a deployment that is admitted over an existing business file (whose
  path is not a temporary name of the protected file); suppose the \<^verbatim>\<open>try\<close> block
  has read the file, the text it read is not empty, and the steps up to the restart
  succeed; suppose the health monitor then fails (a probe finds the daemon stopped), and
  the two file operations of the atomic writer and the restart command of the rollback
  succeed. Then the text kept for the rollback is the previous content of the business
  file as \<^verbatim>\<open>readFileSync(path, 'utf8')\<close> decodes it; after the deployment the
  business file holds that text, which is the previous content byte for byte when the
  previous content was valid UTF-8 (the decoder left it unchanged); the rollback has done
  exactly this: written the temporary file, renamed it onto the business file, restarted
  the daemon, waited, probed once, and logged the recovery when the probe found the daemon
  running and the fatal state when it did not. The response to the caller is the failure
  with the crash-loop error in both cases, and the lock is released.
\<close>

theorem crash_loop_rollback:
  assumes "authorized C req" and "\<not> isDeploying w"
    and "\<forall>now. targetPath C \<noteq> tempPathOf (path_join (BASE_DIR C) (SYSTEM_FILE C)) now"
    and "map_of (files w) (targetPath C) = Some f"
    and "deploy_try L C req (w\<lparr>isDeploying := True\<rparr>) = (w1, Some prev, Inr ())"
    and "prev \<noteq> []"
    and "watch C w1 = (w2, Inl e)"
    and "io_env w2 (n_io w2) = IoOk" and "io_env w2 (Suc (n_io w2)) = IoOk"
    and "cmd_env w2 (n_cmd w2) = CmdOk"
  shows "prev = utf8_decode L (fdata f)
     \<and> (\<exists>i. e = CrashLoop i)
     \<and> snd (deploy L C req w) = Failure e
     \<and> map_option fdata (map_of (files (fst (deploy L C req w))) (targetPath C))
         = Some (utf8_decode L (fdata f))
     \<and> (utf8_decode L (fdata f) = fdata f \<longrightarrow>
          map_option fdata (map_of (files (fst (deploy L C req w))) (targetPath C))
            = Some (fdata f))
     \<and> \<not> isDeploying (fst (deploy L C req w))
     \<and> trace (fst (deploy L C req w)) = trace w2 @
         [EvLog ERROR (LogAborted e), EvLog WARN LogRollingBack,
          EvWrite (tempPathOf (targetPath C) (epoch_ms (clock_env w2 (n_clock w2)))) prev,
          EvRename (tempPathOf (targetPath C) (epoch_ms (clock_env w2 (n_clock w2))))
            (targetPath C),
          EvExec (CMD_RESTART C), EvSleep 2000, EvExec (CMD_STATUS C),
          (if cmd_env w2 (Suc (n_cmd w2)) = CmdOk then EvLog INFO LogRollbackOk
           else EvLog ERROR LogRollbackFatal)]"
proof -
  have prev: "prev = utf8_decode L (fdata f)"
    using assms(3,4) assms(5)
    by (intro deploy_try_rollbackContent [where w = "w\<lparr>isDeploying := True\<rparr>"]) simp_all
  from assms(7) have cl: "\<exists>i. e = CrashLoop i"
    by (auto simp: watch_def dest: watch_loop_error)
  have d: "deploy L C req w = (unlock (rollback C e (Some prev) w2), Failure e)"
    by (rule deploy_crash_rollback [OF assms(1,2,5,7)])
  note r = rollback_restores [OF assms(6,8,9,10), of C e]
  have main: "snd (deploy L C req w) = Failure e
     \<and> map_option fdata (map_of (files (fst (deploy L C req w))) (targetPath C)) = Some prev
     \<and> \<not> isDeploying (fst (deploy L C req w))
     \<and> trace (fst (deploy L C req w)) = trace w2 @
         [EvLog ERROR (LogAborted e), EvLog WARN LogRollingBack,
          EvWrite (tempPathOf (targetPath C) (epoch_ms (clock_env w2 (n_clock w2)))) prev,
          EvRename (tempPathOf (targetPath C) (epoch_ms (clock_env w2 (n_clock w2))))
            (targetPath C),
          EvExec (CMD_RESTART C), EvSleep 2000, EvExec (CMD_STATUS C),
          (if cmd_env w2 (Suc (n_cmd w2)) = CmdOk then EvLog INFO LogRollbackOk
           else EvLog ERROR LogRollbackFatal)]"
    by (simp add: d r unlock_def)
  from main prev cl show ?thesis by auto
qed

theorem crash_loop_rollback_witness:
  "snd (deploy example_libs CONFIG (example_request (JStr ''{}'')) (crashloop_world True))
     = Failure (CrashLoop 2)
   \<and> map_option fdata
       (map_of (files (fst (deploy example_libs CONFIG (example_request (JStr ''{}''))
          (crashloop_world True)))) ''/etc/sing-box/conf.d/10-proxy.json'') = Some ''previous''
   \<and> \<not> isDeploying (fst (deploy example_libs CONFIG (example_request (JStr ''{}''))
          (crashloop_world True)))"
proof -
  let ?w = "crashloop_world True"
  let ?req = "example_request (JStr ''{}'')"
  let ?w1 = "fst (deploy_try example_libs CONFIG ?req (?w\<lparr>isDeploying := True\<rparr>))"
  have c: "Suc 0 < HEALTH_CHECK_COUNT CONFIG" by (simp add: CONFIG_def)
  have w: "watch CONFIG ?w1 =
      (?w1\<lparr>n_cmd := n_cmd ?w1 + Suc (Suc 0),
           trace := trace ?w1 @ EvSleep (HEALTH_INITIAL_DELAY CONFIG)
                      # probe_schedule CONFIG (Suc (Suc 0))\<rparr>,
       Inl (CrashLoop (Suc (Suc 0))))" (is "_ = (?w2, _)")
    by (rule watch_stopped [OF c]; simp add: crashloop_try; simp add: crashloop_world_def)
  have t: "deploy_try example_libs CONFIG ?req (?w\<lparr>isDeploying := True\<rparr>)
             = (?w1, Some ''previous'', Inr ())"
    by (simp add: crashloop_try)
  have f: "map_of (files ?w) (targetPath CONFIG) = Some \<lparr>fdata = ''previous'', mtime = 0\<rparr>"
    by (simp add: crashloop_world_def deployed_world_def quiet_world_def targetPath_def
        path_join_def CONFIG_def)
  have n: "\<forall>now. targetPath CONFIG
             \<noteq> tempPathOf (path_join (BASE_DIR CONFIG) (SYSTEM_FILE CONFIG)) now"
    by (simp add: targetPath_def path_join_def tempPathOf_def CONFIG_def)
  have u: "utf8_decode example_libs (fdata \<lparr>fdata = ''previous'', mtime = 0\<rparr>)
             = fdata \<lparr>fdata = ''previous'', mtime = 0\<rparr>"
    by (simp add: example_libs_def)
  have "snd (deploy example_libs CONFIG ?req ?w) = Failure (CrashLoop (Suc (Suc 0)))
     \<and> map_option fdata (map_of (files (fst (deploy example_libs CONFIG ?req ?w)))
           (targetPath CONFIG)) = Some (fdata \<lparr>fdata = ''previous'', mtime = 0\<rparr>)
     \<and> \<not> isDeploying (fst (deploy example_libs CONFIG ?req ?w))"
    using crash_loop_rollback [OF _ _ n f t _ w] u
    by (simp add: crashloop_try;
        simp add: authorized_def example_request_def CONFIG_def crashloop_world_def
          deployed_world_def quiet_world_def)
  then show ?thesis
    by (simp add: targetPath_def path_join_def CONFIG_def numeral_2_eq_2)
qed

end
